theory Spec2Isabelle
  imports Main "HOL-Library.Char_ord" "HOL-Library.List_Lexorder" "HOL-Library.Multiset"
begin

section \<open>The inventory store of main.py\<close>

text \<open>
  The class \<^verbatim>\<open>InventoryManager\<close> keeps one table, \<^verbatim>\<open>inventory\<close>, in an SQLite file and
  offers \<^verbatim>\<open>create_item\<close>, \<^verbatim>\<open>read_items\<close>, \<^verbatim>\<open>update_item\<close> and \<^verbatim>\<open>delete_item\<close>. Each
  method opens a connection, runs one statement and reports what happened by printing;
  \<^verbatim>\<open>read_items\<close> alone returns a value other than \<^verbatim>\<open>None\<close>.

  Conventions of the model:
  \<^item> text is a \<open>string\<close>, one \<open>char\<close> standing for one code point, so the texts covered
    are those over the first 256 code points;
  \<^item> Python integers are \<open>int\<close>; the engine stores 64-bit integers, and the binding
    raises \<^verbatim>\<open>OverflowError\<close> outside that range;
  \<^item> a value of a dictionary is \<^verbatim>\<open>None\<close>, an integer or text (\<open>pyval\<close>); \<^verbatim>\<open>create_item\<close>
    is given text for its text parameters and an integer for the quantity, as \<^verbatim>\<open>main\<close>
    passes them;
  \<^item> the table is the list of its rows in rowid order, beside the counter that
    \<^verbatim>\<open>AUTOINCREMENT\<close> keeps in \<^verbatim>\<open>sqlite_sequence\<close>;
  \<^item> an exception is a value of type \<open>exn\<close>; a \<^verbatim>\<open>try\<close> body returns what it printed and
    either the exception it raised or its result, and the method's handlers follow;
  \<^item> a printed line is a value of type \<open>message\<close>, one constructor for each \<^verbatim>\<open>print\<close>
    of the four methods;
  \<^item> the engine can fail: every method takes a \<open>fault\<close> saying at which call of the
    connection, if any, \<^verbatim>\<open>sqlite3.Error\<close> is raised;
  \<^item> \<^verbatim>\<open>read_items\<close> takes an \<open>engine\<close> as well, which stands for what its statement leaves
    to the engine.
\<close>

subsection \<open>Data\<close>

record row =
  item_id :: int
  name :: string
  category :: string
  quantity :: int
  purchase_date :: string
  status :: string
  location :: string
  responsible_person :: string
  "notes" :: string

record db =
  rows :: "row list"
  seq :: int

datatype pyval = PNone | PInt int | PStr string

datatype value_error = RequiredFieldsMissing | NegativeQuantity | BadDate

datatype exn = ValueError value_error | SqliteError | TypeError | OverflowError

datatype message =
    Added string
  | Error value_error
  | DbError
  | ReadError
  | DeleteError
  | NoData
  | NoFields
  | NotFound int
  | Updated int
  | Deleted int

datatype retval = RNone | RRows "row list"

datatype ret = Returns retval | Raises exn

record outcome =
  store :: db
  printed :: "message list"
  result :: ret

datatype fault = Healthy | ConnectFails | ExecuteFails | CommitFails

subsection \<open>Python values\<close>

fun truthy :: "pyval \<Rightarrow> bool" where
  "truthy PNone = False"
| "truthy (PInt n) = (n \<noteq> 0)"
| "truthy (PStr s) = (s \<noteq> [])"

definition digit_char :: "nat \<Rightarrow> char" where
  "digit_char n = char_of (48 + n)"

function text_of_nat :: "nat \<Rightarrow> string" where
  "text_of_nat n =
     (if n < 10 then [digit_char n] else text_of_nat (n div 10) @ [digit_char (n mod 10)])"
  by pat_completeness auto
termination
  by (relation "measure (\<lambda>n. n)") auto

declare text_of_nat.simps [simp del]

definition text_of_int :: "int \<Rightarrow> string" where
  "text_of_int i = (if i < 0 then CHR ''-'' # text_of_nat (nat (- i)) else text_of_nat (nat i))"

text \<open>What an f-string writes for a value.\<close>

fun format :: "pyval \<Rightarrow> string" where
  "format PNone = ''None''"
| "format (PInt n) = text_of_int n"
| "format (PStr s) = s"

subsection \<open>The library call \<^verbatim>\<open>datetime.strptime(s, '%Y-%m-%d')\<close>\<close>

text \<open>
  The directive \<^verbatim>\<open>%Y\<close> takes four digits, \<^verbatim>\<open>%m\<close> one of \<^verbatim>\<open>1[0-2]\<close>, \<^verbatim>\<open>0[1-9]\<close>, \<^verbatim>\<open>[1-9]\<close>,
  and \<^verbatim>\<open>%d\<close> one of \<^verbatim>\<open>3[01]\<close>, \<^verbatim>\<open>[12]\d\<close>, \<^verbatim>\<open>0[1-9]\<close>, \<^verbatim>\<open>[1-9]\<close> or a space and \<^verbatim>\<open>[1-9]\<close>;
  the whole text must be used, and the three numbers must be a calendar date of the
  years 1 to 9999. Anything else raises \<^verbatim>\<open>ValueError\<close>, which is \<open>None\<close> here.
\<close>

definition is_digit :: "char \<Rightarrow> bool" where
  "is_digit c = (CHR ''0'' \<le> c \<and> c \<le> CHR ''9'')"

definition digit_val :: "char \<Rightarrow> nat" where
  "digit_val c = of_char c - 48"

fun month_of :: "string \<Rightarrow> nat option" where
  "month_of [a] = (if is_digit a \<and> a \<noteq> CHR ''0'' then Some (digit_val a) else None)"
| "month_of [a, b] =
     (if a = CHR ''1'' \<and> is_digit b \<and> b \<le> CHR ''2'' then Some (10 + digit_val b)
      else if a = CHR ''0'' \<and> is_digit b \<and> b \<noteq> CHR ''0'' then Some (digit_val b)
      else None)"
| "month_of _ = None"

fun day_of :: "string \<Rightarrow> nat option" where
  "day_of [a] = (if is_digit a \<and> a \<noteq> CHR ''0'' then Some (digit_val a) else None)"
| "day_of [a, b] =
     (if a = CHR ''3'' \<and> is_digit b \<and> b \<le> CHR ''1'' then Some (30 + digit_val b)
      else if (a = CHR ''1'' \<or> a = CHR ''2'') \<and> is_digit b then Some (10 * digit_val a + digit_val b)
      else if (a = CHR ''0'' \<or> a = CHR '' '') \<and> is_digit b \<and> b \<noteq> CHR ''0'' then Some (digit_val b)
      else None)"
| "day_of _ = None"

definition is_leap :: "nat \<Rightarrow> bool" where
  "is_leap y = (y mod 4 = 0 \<and> (y mod 100 \<noteq> 0 \<or> y mod 400 = 0))"

definition days_in_month :: "nat \<Rightarrow> nat \<Rightarrow> nat" where
  "days_in_month y m =
     (if m = 2 then (if is_leap y then 29 else 28)
      else if m = 4 \<or> m = 6 \<or> m = 9 \<or> m = 11 then 30 else 31)"

definition strptime :: "string \<Rightarrow> (nat \<times> nat \<times> nat) option" where
  "strptime s =
     (case s of
        y1 # y2 # y3 # y4 # dash # rest \<Rightarrow>
          if is_digit y1 \<and> is_digit y2 \<and> is_digit y3 \<and> is_digit y4 \<and> dash = CHR ''-'' then
            (case month_of (takeWhile (\<lambda>c. c \<noteq> CHR ''-'') rest) of
               None \<Rightarrow> None
             | Some m \<Rightarrow>
                 (case dropWhile (\<lambda>c. c \<noteq> CHR ''-'') rest of
                    [] \<Rightarrow> None
                  | _ # dd \<Rightarrow>
                      (case day_of dd of
                         None \<Rightarrow> None
                       | Some d \<Rightarrow>
                           (let y = 1000 * digit_val y1 + 100 * digit_val y2
                                    + 10 * digit_val y3 + digit_val y4
                            in if 1 \<le> y \<and> d \<le> days_in_month y m then Some (y, m, d)
                               else None))))
          else None
      | _ \<Rightarrow> None)"

subsection \<open>The engine\<close>

text \<open>
  The statements the four methods send, as functions on the table. The engine is the
  SQLite library, which the methods reach through \<^verbatim>\<open>sqlite3\<close>: what is written here is
  what that library does with these statements.
\<close>

definition max_int64 :: int where
  "max_int64 = 9223372036854775807"

definition int64 :: "int \<Rightarrow> bool" where
  "int64 i = (- max_int64 - 1 \<le> i \<and> i \<le> max_int64)"

text \<open>Binding a parameter: an integer outside 64 bits raises \<^verbatim>\<open>OverflowError\<close>.\<close>

fun bindable :: "pyval \<Rightarrow> bool" where
  "bindable (PInt n) = int64 n"
| "bindable _ = True"

definition connect :: "fault \<Rightarrow> exn + unit" where
  "connect f = (if f = ConnectFails then Inl SqliteError else Inr ())"

definition commit :: "fault \<Rightarrow> exn + unit" where
  "commit f = (if f = CommitFails then Inl SqliteError else Inr ())"

text \<open>
  \<^verbatim>\<open>AUTOINCREMENT\<close>: the new rowid is one more than the largest rowid the table has ever
  held, and the insert fails once the largest 64-bit integer has been used.
\<close>

definition next_rowid :: "db \<Rightarrow> int" where
  "next_rowid d = fold max (map item_id (rows d)) (seq d) + 1"

definition execute_insert ::
  "fault \<Rightarrow> db \<Rightarrow> string \<Rightarrow> string \<Rightarrow> int \<Rightarrow> string \<Rightarrow> string \<Rightarrow> string \<Rightarrow> string \<Rightarrow> string
     \<Rightarrow> exn + db" where
  "execute_insert f d nm cat qty pd st loc rp nt =
     (if \<not> int64 qty then Inl OverflowError
      else if f = ExecuteFails \<or> max_int64 < next_rowid d then Inl SqliteError
      else Inr \<lparr>rows = rows d @
                  [\<lparr>item_id = next_rowid d, name = nm, category = cat, quantity = qty,
                    purchase_date = pd, status = st, location = loc,
                    responsible_person = rp, notes = nt\<rparr>],
                seq = next_rowid d\<rparr>)"

text \<open>
  \<^verbatim>\<open>LIKE\<close> with the engine's defaults. The function reads its pattern and its text as
  strings of C, so each ends at its first NUL (\<open>c_string\<close>). In what is left, \<^verbatim>\<open>%\<close> stands
  for any run of characters, \<^verbatim>\<open>_\<close> for one character, and the letters A to Z match their
  lower-case forms (\<open>pattern_compare\<close>).
\<close>

definition c_string :: "string \<Rightarrow> string" where
  "c_string s = takeWhile (\<lambda>c. c \<noteq> CHR 0x00) s"

definition lower_ascii :: "char \<Rightarrow> char" where
  "lower_ascii c = (if CHR ''A'' \<le> c \<and> c \<le> CHR ''Z'' then char_of (of_char c + (32::nat)) else c)"

fun pattern_compare :: "string \<Rightarrow> string \<Rightarrow> bool" where
  "pattern_compare [] t = (t = [])"
| "pattern_compare (p # ps) [] = (p = CHR ''%'' \<and> pattern_compare ps [])"
| "pattern_compare (p # ps) (c # cs) =
     (if p = CHR ''%'' then pattern_compare ps (c # cs) \<or> pattern_compare (p # ps) cs
      else if p = CHR ''_'' then pattern_compare ps cs
      else lower_ascii p = lower_ascii c \<and> pattern_compare ps cs)"

definition sqlite_like :: "string \<Rightarrow> string \<Rightarrow> bool" where
  "sqlite_like p t = pattern_compare (c_string p) (c_string t)"

text \<open>
  The function refuses a pattern of more than 50000 bytes. The stored text is UTF-8: a
  code point below 128 is one byte, each of the others of a \<open>char\<close> is two.
\<close>

definition utf8_length :: "string \<Rightarrow> nat" where
  "utf8_length s = length s + length (filter (\<lambda>c. CHR 0x7F < c) s)"

definition max_like_pattern :: nat where
  "max_like_pattern = 50000"

text \<open>
  The columns as \<^verbatim>\<open>CREATE TABLE\<close> spells them (lines 14 to 22), each with the text \<^verbatim>\<open>LIKE\<close>
  sees in it; the two integer columns are rendered in decimal.
\<close>

definition schema_column :: "string \<Rightarrow> (row \<Rightarrow> string) option" where
  "schema_column k =
     (if k = ''id'' then Some (\<lambda>r. text_of_int (item_id r))
      else if k = ''name'' then Some name
      else if k = ''category'' then Some category
      else if k = ''quantity'' then Some (\<lambda>r. text_of_int (quantity r))
      else if k = ''purchase_date'' then Some purchase_date
      else if k = ''status'' then Some status
      else if k = ''location'' then Some location
      else if k = ''responsible_person'' then Some responsible_person
      else if k = ''notes'' then Some notes
      else None)"

definition row_matches :: "(string \<times> string) list \<Rightarrow> row \<Rightarrow> bool" where
  "row_matches conds r =
     list_all (\<lambda>(k, p). case schema_column k of None \<Rightarrow> False | Some col \<Rightarrow> sqlite_like p (col r)) conds"

text \<open>
  \<^verbatim>\<open>SELECT * FROM inventory WHERE k1 LIKE ? AND ... ORDER BY name\<close>, given as the list of
  the keys with their parameters. The key text is spliced into the statement, so the
  statement can be any text. What the engine does is written out for the statements in
  which every key is a column as the schema spells it and every pattern is within the
  limit (\<open>plain_statement\<close>): the rows that match every condition, in ascending order of
  name, the names compared as byte strings. Two things are left to the engine, and are
  parameters of the model (\<open>engine\<close>):
  \<^item> \<open>tie_rank\<close>, the order in which it returns rows of equal name, which
    \<^verbatim>\<open>ORDER BY name\<close> does not fix: every order of them is that of some \<open>tie_rank\<close>;
  \<^item> \<open>foreign\<close>, what it does with every other statement: the rows it returns or the
    exception it raises. A \<^verbatim>\<open>SELECT\<close> writes nothing, whatever the key texts are.
\<close>

record engine =
  tie_rank :: "row \<Rightarrow> nat"
  foreign :: "db \<Rightarrow> (string \<times> string) list \<Rightarrow> exn + row list"

definition plain_statement :: "(string \<times> string) list \<Rightarrow> bool" where
  "plain_statement conds =
     list_all (\<lambda>(k, p). schema_column k \<noteq> None \<and> utf8_length p \<le> max_like_pattern) conds"

definition execute_select ::
  "fault \<Rightarrow> engine \<Rightarrow> db \<Rightarrow> (string \<times> string) list \<Rightarrow> exn + row list" where
  "execute_select f e d conds =
     (if f = ExecuteFails then Inl SqliteError
      else if plain_statement conds then
        Inr (sort_key name (sort_key (tie_rank e) (filter (row_matches conds) (rows d))))
      else foreign e d conds)"

text \<open>
  One assignment of \<^verbatim>\<open>UPDATE ... SET\<close>. The text columns turn a bound integer into its
  decimal text. \<^verbatim>\<open>update_item\<close> never binds \<^verbatim>\<open>None\<close>, never binds text to \<^verbatim>\<open>quantity\<close>
  and never names another column (lemma \<open>update_loop_typed\<close> below), so the row is
  returned as it is in those cases.
\<close>

fun column_value :: "pyval \<Rightarrow> string \<Rightarrow> string" where
  "column_value (PStr s) old = s"
| "column_value (PInt n) old = text_of_int n"
| "column_value PNone old = old"

definition set_column :: "string \<times> pyval \<Rightarrow> row \<Rightarrow> row" where
  "set_column a r =
     (case a of (k, v) \<Rightarrow>
        if k = ''name'' then r\<lparr>name := column_value v (name r)\<rparr>
        else if k = ''category'' then r\<lparr>category := column_value v (category r)\<rparr>
        else if k = ''quantity'' then (case v of PInt n \<Rightarrow> r\<lparr>quantity := n\<rparr> | _ \<Rightarrow> r)
        else if k = ''purchase_date'' then r\<lparr>purchase_date := column_value v (purchase_date r)\<rparr>
        else if k = ''status'' then r\<lparr>status := column_value v (status r)\<rparr>
        else if k = ''location'' then r\<lparr>location := column_value v (location r)\<rparr>
        else if k = ''responsible_person'' then
          r\<lparr>responsible_person := column_value v (responsible_person r)\<rparr>
        else if k = ''notes'' then r\<lparr>notes := column_value v (notes r)\<rparr>
        else r)"

text \<open>
  \<^verbatim>\<open>UPDATE inventory SET k1 = ?, ... WHERE id = ?\<close>: the assignments are applied from left
  to right to every row with that id; the second component is \<^verbatim>\<open>cursor.rowcount\<close>.
\<close>

definition execute_update ::
  "fault \<Rightarrow> db \<Rightarrow> (string \<times> pyval) list \<Rightarrow> int \<Rightarrow> exn + (db \<times> nat)" where
  "execute_update f d assignments i =
     (if \<not> (list_all (\<lambda>(k, v). bindable v) assignments \<and> int64 i) then Inl OverflowError
      else if f = ExecuteFails then Inl SqliteError
      else Inr (d\<lparr>rows := map (\<lambda>r. if item_id r = i then fold set_column assignments r else r)
                              (rows d)\<rparr>,
                length (filter (\<lambda>r. item_id r = i) (rows d))))"

definition execute_delete :: "fault \<Rightarrow> db \<Rightarrow> int \<Rightarrow> exn + (db \<times> nat)" where
  "execute_delete f d i =
     (if \<not> int64 i then Inl OverflowError
      else if f = ExecuteFails then Inl SqliteError
      else Inr (d\<lparr>rows := filter (\<lambda>r. item_id r \<noteq> i) (rows d)\<rparr>,
                length (filter (\<lambda>r. item_id r = i) (rows d))))"

subsection \<open>The methods\<close>

text \<open>
  \<^verbatim>\<open>init_db\<close> (lines 9 to 25): \<^verbatim>\<open>CREATE TABLE IF NOT EXISTS\<close> makes an empty table in a
  file that has none and leaves an existing table alone.
\<close>

definition empty_db :: db where
  "empty_db = \<lparr>rows = [], seq = 0\<rparr>"

definition init_db :: "db option \<Rightarrow> db" where
  "init_db file = (case file of None \<Rightarrow> empty_db | Some d \<Rightarrow> d)"

text \<open>
  The handlers of \<^verbatim>\<open>create_item\<close> and \<^verbatim>\<open>update_item\<close> (lines 47 to 50 and 115 to 118):
  \<^verbatim>\<open>ValueError\<close> and \<^verbatim>\<open>sqlite3.Error\<close> are printed and the method returns \<^verbatim>\<open>None\<close>; any
  other exception leaves the method. Leaving the \<^verbatim>\<open>with\<close> block by an exception rolls
  the transaction back, so the table is the one the method started with.
\<close>

definition handle :: "db \<Rightarrow> message list \<times> (exn + db) \<Rightarrow> outcome" where
  "handle d body =
     (case body of
        (out, Inr d') \<Rightarrow> \<lparr>store = d', printed = out, result = Returns RNone\<rparr>
      | (out, Inl (ValueError e)) \<Rightarrow> \<lparr>store = d, printed = out @ [Error e], result = Returns RNone\<rparr>
      | (out, Inl SqliteError) \<Rightarrow> \<lparr>store = d, printed = out @ [DbError], result = Returns RNone\<rparr>
      | (out, Inl x) \<Rightarrow> \<lparr>store = d, printed = out, result = Raises x\<rparr>)"

text \<open>\<^verbatim>\<open>create_item\<close>, the \<^verbatim>\<open>try\<close> body (lines 29 to 45).\<close>

definition create_body ::
  "fault \<Rightarrow> db \<Rightarrow> string \<Rightarrow> string \<Rightarrow> int \<Rightarrow> string \<Rightarrow> string \<Rightarrow> string \<Rightarrow> string \<Rightarrow> string
     \<Rightarrow> message list \<times> (exn + db)" where
  "create_body f d nm cat qty pd st loc rp nt =
     (if \<not> list_all (\<lambda>s. s \<noteq> []) [nm, cat, pd, st, loc] then
        ([], Inl (ValueError RequiredFieldsMissing))
      else if qty < 0 then ([], Inl (ValueError NegativeQuantity))
      else if strptime pd = None then ([], Inl (ValueError BadDate))
      else
        (case connect f of
           Inl e \<Rightarrow> ([], Inl e)
         | Inr _ \<Rightarrow>
             (case execute_insert f d nm cat qty pd st loc rp nt of
                Inl e \<Rightarrow> ([], Inl e)
              | Inr d' \<Rightarrow>
                  (case commit f of
                     Inl e \<Rightarrow> ([], Inl e)
                   | Inr _ \<Rightarrow> ([Added nm], Inr d')))))"

definition create_item ::
  "fault \<Rightarrow> db \<Rightarrow> string \<Rightarrow> string \<Rightarrow> int \<Rightarrow> string \<Rightarrow> string \<Rightarrow> string \<Rightarrow> string \<Rightarrow> string
     \<Rightarrow> outcome" where
  "create_item f d nm cat qty pd st loc rp nt =
     handle d (create_body f d nm cat qty pd st loc rp nt)"

text \<open>
  \<^verbatim>\<open>read_items\<close> (lines 52 to 76). The loop of lines 62 to 65 keeps the entries whose
  value is true and pairs each key with its parameter; \<open>build_query\<close> is the statement
  text and the parameter list of lines 57 to 70. \<open>None\<close> is the default \<^verbatim>\<open>filters=None\<close>.
  A \<^verbatim>\<open>SELECT\<close> opens no transaction, so the method has no commit that could fail. The one
  handler catches \<^verbatim>\<open>sqlite3.Error\<close>; \<open>connect\<close> raises nothing else.
\<close>

definition where_conditions :: "(string \<times> pyval) list \<Rightarrow> (string \<times> string) list" where
  "where_conditions filters =
     map (\<lambda>(key, value). (key, ''%'' @ format value @ ''%''))
         (filter (\<lambda>(key, value). truthy value) filters)"

fun join :: "string \<Rightarrow> string list \<Rightarrow> string" where
  "join sep [] = []"
| "join sep [x] = x"
| "join sep (x # y # ys) = x @ sep @ join sep (y # ys)"

definition query_conditions :: "(string \<times> pyval) list option \<Rightarrow> (string \<times> string) list" where
  "query_conditions filters =
     (case filters of None \<Rightarrow> [] | Some fs \<Rightarrow> if fs = [] then [] else where_conditions fs)"

definition build_query :: "(string \<times> pyval) list option \<Rightarrow> string \<times> string list" where
  "build_query filters =
     (let conds = query_conditions filters
      in (''SELECT * FROM inventory''
            @ (if conds \<noteq> [] then '' WHERE '' @ join '' AND '' (map (\<lambda>(key, p). key @ '' LIKE ?'') conds)
               else [])
            @ '' ORDER BY name'',
          map snd conds))"

definition read_items ::
  "fault \<Rightarrow> engine \<Rightarrow> db \<Rightarrow> (string \<times> pyval) list option \<Rightarrow> outcome" where
  "read_items f e d filters =
     (case connect f of
        Inl x \<Rightarrow> \<lparr>store = d, printed = [ReadError], result = Returns (RRows [])\<rparr>
      | Inr _ \<Rightarrow>
          (case execute_select f e d (query_conditions filters) of
             Inl SqliteError \<Rightarrow> \<lparr>store = d, printed = [ReadError], result = Returns (RRows [])\<rparr>
           | Inl x \<Rightarrow> \<lparr>store = d, printed = [], result = Raises x\<rparr>
           | Inr rs \<Rightarrow> \<lparr>store = d, printed = [], result = Returns (RRows rs)\<rparr>))"

text \<open>
  \<^verbatim>\<open>update_item\<close> (lines 78 to 118). \<open>kwargs\<close> is the keyword dictionary in its order.
  \<open>check_field\<close> is lines 90 to 94 for a value that is not \<^verbatim>\<open>None\<close>: comparing text with
  \<^verbatim>\<open>0\<close> and parsing an integer as a date raise \<^verbatim>\<open>TypeError\<close>. \<open>update_loop\<close> is the loop
  of lines 88 to 97; it collects each accepted field, which stands for the entry
  \<^verbatim>\<open>field = ?\<close> of \<^verbatim>\<open>update_fields\<close>, with its parameter.
\<close>

definition valid_fields :: "string list" where
  "valid_fields = [''name'', ''category'', ''quantity'', ''purchase_date'', ''status'',
                   ''location'', ''responsible_person'', ''notes'']"

definition check_field :: "string \<Rightarrow> pyval \<Rightarrow> exn option" where
  "check_field field v =
     (if field = ''quantity'' then
        (case v of PInt n \<Rightarrow> if n < 0 then Some (ValueError NegativeQuantity) else None
                 | _ \<Rightarrow> Some TypeError)
      else if field = ''purchase_date'' then
        (case v of PStr s \<Rightarrow> if strptime s = None then Some (ValueError BadDate) else None
                 | _ \<Rightarrow> Some TypeError)
      else None)"

fun update_loop ::
  "(string \<times> pyval) list \<Rightarrow> (string \<times> pyval) list \<Rightarrow> exn + (string \<times> pyval) list" where
  "update_loop [] acc = Inr acc"
| "update_loop ((field, v) # rest) acc =
     (if field \<in> set valid_fields \<and> v \<noteq> PNone then
        (case check_field field v of
           Some e \<Rightarrow> Inl e
         | None \<Rightarrow> update_loop rest (acc @ [(field, v)]))
      else update_loop rest acc)"

definition update_body ::
  "fault \<Rightarrow> db \<Rightarrow> int \<Rightarrow> (string \<times> pyval) list \<Rightarrow> message list \<times> (exn + db)" where
  "update_body f d i kwargs =
     (if kwargs = [] then ([NoData], Inr d)
      else
        (case update_loop kwargs [] of
           Inl e \<Rightarrow> ([], Inl e)
         | Inr update_fields \<Rightarrow>
             if update_fields = [] then ([NoFields], Inr d)
             else
               (case connect f of
                  Inl e \<Rightarrow> ([], Inl e)
                | Inr _ \<Rightarrow>
                    (case execute_update f d update_fields i of
                       Inl e \<Rightarrow> ([], Inl e)
                     | Inr (d', rowcount) \<Rightarrow>
                         (let out = [if rowcount = 0 then NotFound i else Updated i]
                          in case commit f of
                               Inl e \<Rightarrow> (out, Inl e)
                             | Inr _ \<Rightarrow> (out, Inr d'))))))"

definition update_item :: "fault \<Rightarrow> db \<Rightarrow> int \<Rightarrow> (string \<times> pyval) list \<Rightarrow> outcome" where
  "update_item f d i kwargs = handle d (update_body f d i kwargs)"

text \<open>
  \<^verbatim>\<open>delete_item\<close> (lines 120 to 133); its one handler catches \<^verbatim>\<open>sqlite3.Error\<close>.
\<close>

definition delete_body :: "fault \<Rightarrow> db \<Rightarrow> int \<Rightarrow> message list \<times> (exn + db)" where
  "delete_body f d i =
     (case connect f of
        Inl e \<Rightarrow> ([], Inl e)
      | Inr _ \<Rightarrow>
          (case execute_delete f d i of
             Inl e \<Rightarrow> ([], Inl e)
           | Inr (d', rowcount) \<Rightarrow>
               (let out = [if rowcount = 0 then NotFound i else Deleted i]
                in case commit f of
                     Inl e \<Rightarrow> (out, Inl e)
                   | Inr _ \<Rightarrow> (out, Inr d'))))"

definition delete_item :: "fault \<Rightarrow> db \<Rightarrow> int \<Rightarrow> outcome" where
  "delete_item f d i =
     (case delete_body f d i of
        (out, Inr d') \<Rightarrow> \<lparr>store = d', printed = out, result = Returns RNone\<rparr>
      | (out, Inl SqliteError) \<Rightarrow> \<lparr>store = d, printed = out @ [DeleteError], result = Returns RNone\<rparr>
      | (out, Inl x) \<Rightarrow> \<lparr>store = d, printed = out, result = Raises x\<rparr>)"

subsection \<open>Sequences of calls\<close>

datatype call =
    Create string string int string string string string string
  | Read "(string \<times> pyval) list option"
  | Update int "(string \<times> pyval) list"
  | Delete int

fun perform :: "fault \<Rightarrow> engine \<Rightarrow> db \<Rightarrow> call \<Rightarrow> outcome" where
  "perform f e d (Create nm cat qty pd st loc rp nt) = create_item f d nm cat qty pd st loc rp nt"
| "perform f e d (Read filters) = read_items f e d filters"
| "perform f e d (Update i kwargs) = update_item f d i kwargs"
| "perform f e d (Delete i) = delete_item f d i"

text \<open>The tables a manager started on a new file can hold.\<close>

inductive reachable :: "db \<Rightarrow> bool" where
  start: "reachable (init_db None)"
| step: "reachable d \<Longrightarrow> reachable (store (perform f e d c))"

section \<open>Notions of the specification\<close>

text \<open>
  The value of a column as a reader of the row sees it, for the names of
  \<open>valid_fields\<close> and for \<^verbatim>\<open>id\<close>.
\<close>

definition get_column :: "string \<Rightarrow> row \<Rightarrow> pyval" where
  "get_column k r =
     (if k = ''id'' then PInt (item_id r)
      else if k = ''name'' then PStr (name r)
      else if k = ''category'' then PStr (category r)
      else if k = ''quantity'' then PInt (quantity r)
      else if k = ''purchase_date'' then PStr (purchase_date r)
      else if k = ''status'' then PStr (status r)
      else if k = ''location'' then PStr (location r)
      else if k = ''responsible_person'' then PStr (responsible_person r)
      else if k = ''notes'' then PStr (notes r)
      else PNone)"

text \<open>
  The value a column holds once a supplied value has been written to it: the supplied
  value itself, but for an integer written to a text column, which is kept as its
  decimal text.
\<close>

definition stored_value :: "string \<Rightarrow> pyval \<Rightarrow> pyval" where
  "stored_value k v =
     (if k = ''quantity'' then v else (case v of PInt n \<Rightarrow> PStr (text_of_int n) | _ \<Rightarrow> v))"

text \<open>
  Containment of a pattern in a text as a substring, the letters A to Z taken as their
  lower-case forms.
\<close>

fun starts_with_ci :: "string \<Rightarrow> string \<Rightarrow> bool" where
  "starts_with_ci [] t = True"
| "starts_with_ci (p # ps) [] = False"
| "starts_with_ci (p # ps) (c # cs) = (lower_ascii p = lower_ascii c \<and> starts_with_ci ps cs)"

fun contains_ci :: "string \<Rightarrow> string \<Rightarrow> bool" where
  "contains_ci p [] = (p = [])"
| "contains_ci p (c # cs) = (starts_with_ci p (c # cs) \<or> contains_ci p cs)"

text \<open>A value that \<^verbatim>\<open>LIKE\<close> takes letter by letter: no \<^verbatim>\<open>%\<close>, no \<^verbatim>\<open>_\<close> and no NUL.\<close>

definition plain_value :: "string \<Rightarrow> bool" where
  "plain_value p = (CHR ''%'' \<notin> set p \<and> CHR ''_'' \<notin> set p \<and> CHR 0x00 \<notin> set p)"

text \<open>
  The entries of a filter set, and the rows it selects: every entry with a true value
  names a column whose text matches the pattern of \<^verbatim>\<open>LIKE\<close> made of the value between
  two \<^verbatim>\<open>%\<close>. \<open>selected_substring\<close> asks instead that the text, up to its first NUL,
  contains the value.
\<close>

definition filter_entries :: "(string \<times> pyval) list option \<Rightarrow> (string \<times> pyval) list" where
  "filter_entries filters = (case filters of None \<Rightarrow> [] | Some fs \<Rightarrow> fs)"

definition selected :: "(string \<times> pyval) list \<Rightarrow> row \<Rightarrow> bool" where
  "selected fs r =
     list_all (\<lambda>(k, v). truthy v \<longrightarrow>
                 (case schema_column k of
                    None \<Rightarrow> False
                  | Some col \<Rightarrow> sqlite_like (''%'' @ format v @ ''%'') (col r))) fs"

definition selected_substring :: "(string \<times> pyval) list \<Rightarrow> row \<Rightarrow> bool" where
  "selected_substring fs r =
     list_all (\<lambda>(k, v). truthy v \<longrightarrow>
                 (case schema_column k of
                    None \<Rightarrow> False
                  | Some col \<Rightarrow> contains_ci (format v) (c_string (col r)))) fs"

text \<open>
  The fixed form of a date: four digits, a hyphen, two digits, a hyphen, two digits.
\<close>

definition iso_date_format :: "string \<Rightarrow> bool" where
  "iso_date_format s =
     (case s of
        [y1, y2, y3, y4, h1, m1, m2, h2, d1, d2] \<Rightarrow>
          list_all is_digit [y1, y2, y3, y4, m1, m2, d1, d2] \<and> h1 = CHR ''-'' \<and> h2 = CHR ''-''
      | _ \<Rightarrow> False)"

text \<open>
  What every stored row keeps: a quantity that is not negative and a purchase date that
  \<^verbatim>\<open>strptime\<close> accepts. What every table keeps: such rows, in strictly increasing order of
  id, none above the counter of \<^verbatim>\<open>AUTOINCREMENT\<close>.
\<close>

definition row_ok :: "row \<Rightarrow> bool" where
  "row_ok r = (0 \<le> quantity r \<and> strptime (purchase_date r) \<noteq> None)"

definition db_ok :: "db \<Rightarrow> bool" where
  "db_ok d =
     (list_all row_ok (rows d) \<and> sorted_wrt (<) (map item_id (rows d)) \<and>
      list_all (\<lambda>r. item_id r \<le> seq d) (rows d))"

text \<open>The row of the scenario in the specification, and the table that holds it alone.\<close>

definition laptop :: row where
  "laptop = \<lparr>item_id = 1, name = ''Laptop'', category = ''Electronics'', quantity = 5,
             purchase_date = ''2024-01-15'', status = ''in use'', location = ''Room 101'',
             responsible_person = [], notes = []\<rparr>"

definition laptop_db :: db where
  "laptop_db = \<lparr>rows = [laptop], seq = 1\<rparr>"

text \<open>
  A table of four rows, and an engine that returns rows of equal name in rowid order
  and reports an error for every statement that is not plain.
\<close>

definition office_db :: db where
  "office_db =
     \<lparr>rows = [laptop,
              laptop\<lparr>item_id := 2, name := ''Chair'', category := ''Furniture''\<rparr>,
              laptop\<lparr>item_id := 3, name := ''Printer'', location := ''Room 202''\<rparr>,
              laptop\<lparr>item_id := 4, name := ''Cable''\<rparr>],
      seq = 4\<rparr>"

definition rowid_engine :: engine where
  "rowid_engine = \<lparr>tie_rank = (\<lambda>r. 0), foreign = (\<lambda>d conds. Inl SqliteError)\<rparr>"

section \<open>Properties\<close>

lemmas engine_defs = connect_def commit_def execute_insert_def execute_select_def
  execute_update_def execute_delete_def

subsection \<open>Validation in \<^verbatim>\<open>create_item\<close>\<close>

lemma strptime_day_first: "strptime ''01-01-2024'' = None"
  by (simp add: strptime_def is_digit_def)

text \<open>
  C1, as amended. \<^verbatim>\<open>create_item\<close> validates in a fixed order and the first failure wins:
  an empty name, category, purchase date, status or location raises the error of the
  required fields; otherwise a negative quantity raises the error of the quantity;
  otherwise a purchase date that \<^verbatim>\<open>strptime\<close> rejects for the format \<^verbatim>\<open>%Y-%m-%d\<close> raises the
  error of the date. Each error is raised and caught inside the method: the handler
  prints it, the method returns \<^verbatim>\<open>None\<close> and the table is the one it started with,
  whatever the state of the engine.
\<close>

theorem create_item_validation_order:
  "(nm = [] \<or> cat = [] \<or> pd = [] \<or> st = [] \<or> loc = [] \<longrightarrow>
      create_body f d nm cat qty pd st loc rp nt = ([], Inl (ValueError RequiredFieldsMissing)) \<and>
      create_item f d nm cat qty pd st loc rp nt =
        \<lparr>store = d, printed = [Error RequiredFieldsMissing], result = Returns RNone\<rparr>) \<and>
   (nm \<noteq> [] \<and> cat \<noteq> [] \<and> pd \<noteq> [] \<and> st \<noteq> [] \<and> loc \<noteq> [] \<and> qty < 0 \<longrightarrow>
      create_body f d nm cat qty pd st loc rp nt = ([], Inl (ValueError NegativeQuantity)) \<and>
      create_item f d nm cat qty pd st loc rp nt =
        \<lparr>store = d, printed = [Error NegativeQuantity], result = Returns RNone\<rparr>) \<and>
   (nm \<noteq> [] \<and> cat \<noteq> [] \<and> pd \<noteq> [] \<and> st \<noteq> [] \<and> loc \<noteq> [] \<and> 0 \<le> qty \<and> strptime pd = None \<longrightarrow>
      create_body f d nm cat qty pd st loc rp nt = ([], Inl (ValueError BadDate)) \<and>
      create_item f d nm cat qty pd st loc rp nt =
        \<lparr>store = d, printed = [Error BadDate], result = Returns RNone\<rparr>)"
  by (auto simp: create_item_def create_body_def handle_def)

theorem create_item_validation_order_witness:
  "create_item Healthy empty_db [] ''Electronics'' (- 1) ''01-01-2024'' ''in use'' ''Room 101'' [] []
     = \<lparr>store = empty_db, printed = [Error RequiredFieldsMissing], result = Returns RNone\<rparr> \<and>
   create_item Healthy empty_db ''Laptop'' ''Electronics'' (- 1) ''01-01-2024'' ''in use'' ''Room 101'' [] []
     = \<lparr>store = empty_db, printed = [Error NegativeQuantity], result = Returns RNone\<rparr> \<and>
   create_item Healthy empty_db ''Laptop'' ''Electronics'' 5 ''01-01-2024'' ''in use'' ''Room 101'' [] []
     = \<lparr>store = empty_db, printed = [Error BadDate], result = Returns RNone\<rparr>"
  using create_item_validation_order [of "[]" "''Electronics''" "''01-01-2024''" "''in use''"
          "''Room 101''" Healthy empty_db "- 1" "[]" "[]"]
        create_item_validation_order [of "''Laptop''" "''Electronics''" "''01-01-2024''" "''in use''"
          "''Room 101''" Healthy empty_db "- 1" "[]" "[]"]
        create_item_validation_order [of "''Laptop''" "''Electronics''" "''01-01-2024''" "''in use''"
          "''Room 101''" Healthy empty_db "5" "[]" "[]"]
        strptime_day_first
  by simp

lemma strptime_short: "strptime ''2024-1-5'' = Some (2024, 1, 5)"
  by (simp add: strptime_def is_digit_def digit_val_def days_in_month_def is_leap_def)

text \<open>
  C1, as stated, fails. The purchase date \<^verbatim>\<open>2024-1-5\<close> is not of the fixed form, yet
  \<^verbatim>\<open>strptime\<close> accepts it and the row is stored with it. And a call that fails a check
  does not fail with an error: it returns \<^verbatim>\<open>None\<close>, as a call that succeeds does.
\<close>

theorem create_item_accepts_short_date:
  "\<not> iso_date_format ''2024-1-5'' \<and>
   create_item Healthy empty_db ''Laptop'' ''Electronics'' 5 ''2024-1-5'' ''in use'' ''Room 101'' [] []
     = \<lparr>store = \<lparr>rows = [laptop\<lparr>purchase_date := ''2024-1-5''\<rparr>], seq = 1\<rparr>,
        printed = [Added ''Laptop''], result = Returns RNone\<rparr> \<and>
   result (create_item Healthy empty_db [] ''Electronics'' 5 ''2024-01-15'' ''in use'' ''Room 101''
             [] []) = Returns RNone"
  by (simp add: iso_date_format_def create_item_def create_body_def handle_def engine_defs
      strptime_short int64_def max_int64_def next_rowid_def empty_db_def laptop_def)

subsection \<open>The statement text of \<^verbatim>\<open>read_items\<close>\<close>

text \<open>
  C8. The claim is that a filter key which is no recognized field name never becomes part
  of the statement. \<^verbatim>\<open>read_items\<close> has no list of field names (\<^verbatim>\<open>update_item\<close> has
  \<^verbatim>\<open>valid_fields\<close>): the key \<^verbatim>\<open>bogus\<close>, which names no column, is spliced into the
  \<^verbatim>\<open>WHERE\<close> clause.
\<close>

theorem build_query_unrecognized_key:
  "build_query (Some [(''bogus'', PStr ''x'')])
     = (''SELECT * FROM inventory WHERE bogus LIKE ? ORDER BY name'', [''%x%'']) \<and>
   ''bogus'' \<notin> set (''id'' # valid_fields) \<and> schema_column ''bogus'' = None"
  by (simp add: build_query_def query_conditions_def where_conditions_def valid_fields_def
      schema_column_def)

subsection \<open>Failures of the engine\<close>

lemma handle_not_sqlite: "result (handle d body) \<noteq> Raises SqliteError"
  by (auto simp: handle_def split: prod.splits sum.splits exn.splits)

lemma create_fault_store: "f \<noteq> Healthy \<Longrightarrow> store (create_item f d nm cat qty pd st loc rp nt) = d"
  by (cases f) (auto simp: create_item_def create_body_def handle_def engine_defs)

lemma update_loop_append:
  "update_loop kw acc = Inr flds \<Longrightarrow>
     flds = acc @ filter (\<lambda>(k, v). k \<in> set valid_fields \<and> v \<noteq> PNone) kw"
  by (induction kw acc rule: update_loop.induct) (auto split: if_splits option.splits)

lemma update_fault_store: "f \<noteq> Healthy \<Longrightarrow> store (update_item f d i kw) = d"
  by (cases f) (auto simp: update_item_def update_body_def handle_def engine_defs Let_def
      split: sum.splits exn.splits)

lemma delete_fault_store: "f \<noteq> Healthy \<Longrightarrow> store (delete_item f d i) = d"
  by (cases f) (auto simp: delete_item_def delete_body_def engine_defs Let_def)

lemma delete_not_sqlite: "result (delete_item f d i) \<noteq> Raises SqliteError"
  by (auto simp: delete_item_def delete_body_def engine_defs Let_def)

lemma read_items_store: "store (read_items f e d filters) = d"
  by (auto simp: read_items_def split: sum.splits exn.splits)

lemma read_items_not_sqlite: "result (read_items f e d filters) \<noteq> Raises SqliteError"
  by (auto simp: read_items_def split: sum.splits exn.splits)

lemma read_items_fault:
  "f = ConnectFails \<or> f = ExecuteFails \<Longrightarrow>
     read_items f e d filters = \<lparr>store = d, printed = [ReadError], result = Returns (RRows [])\<rparr>"
  by (auto simp: read_items_def engine_defs)

lemma create_fault_reported:
  "f \<noteq> Healthy \<Longrightarrow> nm \<noteq> [] \<Longrightarrow> cat \<noteq> [] \<Longrightarrow> pd \<noteq> [] \<Longrightarrow> st \<noteq> [] \<Longrightarrow> loc \<noteq> [] \<Longrightarrow> 0 \<le> qty \<Longrightarrow>
   int64 qty \<Longrightarrow> strptime pd \<noteq> None \<Longrightarrow>
     create_item f d nm cat qty pd st loc rp nt
       = \<lparr>store = d, printed = [DbError], result = Returns RNone\<rparr>"
  by (cases f) (auto simp: create_item_def create_body_def handle_def engine_defs)

lemma update_fault_reported:
  "f \<noteq> Healthy \<Longrightarrow> update_loop kw [] = Inr flds \<Longrightarrow> flds \<noteq> [] \<Longrightarrow>
   list_all (\<lambda>(k, v). bindable v) flds \<Longrightarrow> int64 i \<Longrightarrow>
     result (update_item f d i kw) = Returns RNone \<and> last (printed (update_item f d i kw)) = DbError"
  by (cases f) (auto simp: update_item_def update_body_def handle_def engine_defs Let_def)

lemma delete_fault_reported:
  "f \<noteq> Healthy \<Longrightarrow> int64 i \<Longrightarrow>
     result (delete_item f d i) = Returns RNone \<and> last (printed (delete_item f d i)) = DeleteError"
  by (cases f) (auto simp: delete_item_def delete_body_def engine_defs Let_def)

text \<open>
  C6, as amended. A failure of the engine is caught inside every method: the table is
  left as it was (no write, on create and on every other method), \<^verbatim>\<open>sqlite3.Error\<close> never
  reaches the caller, and the method prints a line for the failure and returns normally:
  \<^verbatim>\<open>None\<close> from create, update and delete, the empty list from \<^verbatim>\<open>read_items\<close>.
\<close>

theorem storage_failure_is_caught:
  "f \<noteq> Healthy \<longrightarrow>
     store (create_item f d nm cat qty pd st loc rp nt) = d \<and>
     result (create_item f d nm cat qty pd st loc rp nt) \<noteq> Raises SqliteError \<and>
     (nm \<noteq> [] \<and> cat \<noteq> [] \<and> pd \<noteq> [] \<and> st \<noteq> [] \<and> loc \<noteq> [] \<and> 0 \<le> qty \<and> int64 qty \<and>
      strptime pd \<noteq> None \<longrightarrow>
        create_item f d nm cat qty pd st loc rp nt
          = \<lparr>store = d, printed = [DbError], result = Returns RNone\<rparr>) \<and>
     store (read_items f e d filters) = d \<and>
     result (read_items f e d filters) \<noteq> Raises SqliteError \<and>
     (f \<noteq> CommitFails \<longrightarrow>
        read_items f e d filters
          = \<lparr>store = d, printed = [ReadError], result = Returns (RRows [])\<rparr>) \<and>
     store (update_item f d i kwargs) = d \<and>
     result (update_item f d i kwargs) \<noteq> Raises SqliteError \<and>
     (update_loop kwargs [] = Inr flds \<and> flds \<noteq> [] \<and> list_all (\<lambda>(k, v). bindable v) flds \<and> int64 i \<longrightarrow>
        result (update_item f d i kwargs) = Returns RNone \<and>
        last (printed (update_item f d i kwargs)) = DbError) \<and>
     store (delete_item f d j) = d \<and>
     result (delete_item f d j) \<noteq> Raises SqliteError \<and>
     (int64 j \<longrightarrow>
        result (delete_item f d j) = Returns RNone \<and>
        last (printed (delete_item f d j)) = DeleteError)"
proof (intro impI conjI)
  assume f: "f \<noteq> Healthy"
  show "store (create_item f d nm cat qty pd st loc rp nt) = d"
    using f by (rule create_fault_store)
  show "result (create_item f d nm cat qty pd st loc rp nt) \<noteq> Raises SqliteError"
    by (simp add: create_item_def handle_not_sqlite)
  show "store (read_items f e d filters) = d"
    by (rule read_items_store)
  show "result (read_items f e d filters) \<noteq> Raises SqliteError"
    by (rule read_items_not_sqlite)
  show "store (update_item f d i kwargs) = d"
    using f by (rule update_fault_store)
  show "result (update_item f d i kwargs) \<noteq> Raises SqliteError"
    by (simp add: update_item_def handle_not_sqlite)
  show "store (delete_item f d j) = d"
    using f by (rule delete_fault_store)
  show "result (delete_item f d j) \<noteq> Raises SqliteError"
    by (rule delete_not_sqlite)
next
  assume "f \<noteq> Healthy" "nm \<noteq> [] \<and> cat \<noteq> [] \<and> pd \<noteq> [] \<and> st \<noteq> [] \<and> loc \<noteq> [] \<and> 0 \<le> qty \<and> int64 qty \<and>
      strptime pd \<noteq> None"
  then show "create_item f d nm cat qty pd st loc rp nt
          = \<lparr>store = d, printed = [DbError], result = Returns RNone\<rparr>"
    by (simp add: create_fault_reported)
next
  assume "f \<noteq> Healthy" "f \<noteq> CommitFails"
  then show "read_items f e d filters
          = \<lparr>store = d, printed = [ReadError], result = Returns (RRows [])\<rparr>"
    by (cases f) (simp_all add: read_items_fault)
next
  assume "f \<noteq> Healthy"
    "update_loop kwargs [] = Inr flds \<and> flds \<noteq> [] \<and> list_all (\<lambda>(k, v). bindable v) flds \<and> int64 i"
  then show "result (update_item f d i kwargs) = Returns RNone"
    and "last (printed (update_item f d i kwargs)) = DbError"
    using update_fault_reported [of f kwargs flds i d] by simp_all
next
  assume "f \<noteq> Healthy" "int64 j"
  then show "result (delete_item f d j) = Returns RNone"
    and "last (printed (delete_item f d j)) = DeleteError"
    using delete_fault_reported [of f j d] by simp_all
qed

lemma strptime_example: "strptime ''2024-01-15'' = Some (2024, 1, 15)"
  by (simp add: strptime_def is_digit_def digit_val_def days_in_month_def is_leap_def)

lemma int64_small: "int64 5" "int64 3" "int64 1" "int64 2" "int64 7"
  by (simp_all add: int64_def max_int64_def)

theorem storage_failure_is_caught_witness:
  "create_item ExecuteFails empty_db ''Laptop'' ''Electronics'' 5 ''2024-01-15'' ''in use'' ''Room 101'' [] []
     = \<lparr>store = empty_db, printed = [DbError], result = Returns RNone\<rparr> \<and>
   read_items ExecuteFails rowid_engine empty_db None
     = \<lparr>store = empty_db, printed = [ReadError], result = Returns (RRows [])\<rparr> \<and>
   store (update_item ExecuteFails empty_db 1 [(''quantity'', PInt 3)]) = empty_db \<and>
   result (update_item ExecuteFails empty_db 1 [(''quantity'', PInt 3)]) = Returns RNone \<and>
   last (printed (update_item ExecuteFails empty_db 1 [(''quantity'', PInt 3)])) = DbError \<and>
   store (delete_item ExecuteFails empty_db 1) = empty_db \<and>
   result (delete_item ExecuteFails empty_db 1) = Returns RNone \<and>
   last (printed (delete_item ExecuteFails empty_db 1)) = DeleteError"
proof -
  have loop: "update_loop [(''quantity'', PInt 3)] [] = Inr [(''quantity'', PInt 3)]"
    by (simp add: valid_fields_def check_field_def)
  show ?thesis
    using storage_failure_is_caught [of ExecuteFails empty_db "''Laptop''" "''Electronics''"
      5 "''2024-01-15''" "''in use''" "''Room 101''" "[]" "[]" rowid_engine None 1 "[(''quantity'', PInt 3)]"
      "[(''quantity'', PInt 3)]" 1] loop strptime_example int64_small
    by simp
qed

text \<open>
  C6, as stated, fails: when the statement cannot be executed, \<^verbatim>\<open>read_items\<close> returns the
  empty list and raises nothing.
\<close>

theorem read_items_swallows_failure:
  "read_items ExecuteFails rowid_engine empty_db None
     = \<lparr>store = empty_db, printed = [ReadError], result = Returns (RRows [])\<rparr> \<and>
   result (read_items ExecuteFails rowid_engine empty_db None) \<noteq> Raises SqliteError"
  by (simp add: read_items_def engine_defs query_conditions_def)

subsection \<open>Ids that match no row\<close>

lemma no_row_filter:
  "i \<notin> item_id ` set rs \<Longrightarrow> filter (\<lambda>r. item_id r = i) rs = []"
  by (induction rs) auto

lemma no_row_keep:
  "i \<notin> item_id ` set rs \<Longrightarrow> filter (\<lambda>r. item_id r \<noteq> i) rs = rs"
  by (induction rs) auto

lemma no_row_map:
  "i \<notin> item_id ` set rs \<Longrightarrow> map (\<lambda>r. if item_id r = i then g r else r) rs = rs"
  by (induction rs) auto

lemma update_item_no_row:
  "i \<notin> item_id ` set (rows d) \<Longrightarrow> store (update_item f d i kw) = d"
  by (auto simp: update_item_def update_body_def handle_def engine_defs Let_def no_row_map
      split: sum.splits exn.splits)

lemma delete_item_no_row:
  "i \<notin> item_id ` set (rows d) \<Longrightarrow> store (delete_item f d i) = d"
  by (auto simp: delete_item_def delete_body_def engine_defs Let_def no_row_keep)

lemma delete_item_not_found:
  "i \<notin> item_id ` set (rows d) \<Longrightarrow> int64 i \<Longrightarrow>
     delete_item Healthy d i = \<lparr>store = d, printed = [NotFound i], result = Returns RNone\<rparr>"
  by (simp add: delete_item_def delete_body_def engine_defs no_row_keep no_row_filter)

lemma update_item_not_found:
  "i \<notin> item_id ` set (rows d) \<Longrightarrow> int64 i \<Longrightarrow> update_loop kw [] = Inr flds \<Longrightarrow> flds \<noteq> [] \<Longrightarrow>
   list_all (\<lambda>(k, v). bindable v) flds \<Longrightarrow>
     update_item Healthy d i kw = \<lparr>store = d, printed = [NotFound i], result = Returns RNone\<rparr>"
  by (auto simp: update_item_def update_body_def handle_def engine_defs no_row_map no_row_filter)

lemma delete_item_removed:
  "i \<in> item_id ` set (rows d) \<Longrightarrow> int64 i \<Longrightarrow>
     delete_item Healthy d i
       = \<lparr>store = d\<lparr>rows := filter (\<lambda>r. item_id r \<noteq> i) (rows d)\<rparr>, printed = [Deleted i],
          result = Returns RNone\<rparr>"
  by (auto simp: delete_item_def delete_body_def engine_defs filter_empty_conv)

text \<open>
  C7, as amended. For an id that matches no row, \<^verbatim>\<open>update_item\<close> and \<^verbatim>\<open>delete_item\<close>
  leave the table as it is, whatever else happens. For such an id within 64 bits and a
  working engine, \<^verbatim>\<open>delete_item\<close> prints the line of the id that was not found, and so
  does an \<^verbatim>\<open>update_item\<close> whose fields passed the loop and can be bound; both return
  \<^verbatim>\<open>None\<close>, as every call does, and raise nothing. Deleting an id within 64 bits that is
  present prints the line of the removal, and deleting it again prints the line of the
  id that was not found.
\<close>

theorem not_found_is_reported:
  "(i \<notin> item_id ` set (rows d) \<longrightarrow>
      store (update_item f d i kwargs) = d \<and>
      store (delete_item f d i) = d \<and>
      (int64 i \<longrightarrow>
         delete_item Healthy d i
           = \<lparr>store = d, printed = [NotFound i], result = Returns RNone\<rparr>) \<and>
      (int64 i \<and> update_loop kwargs [] = Inr flds \<and> flds \<noteq> [] \<and>
       list_all (\<lambda>(k, v). bindable v) flds \<longrightarrow>
         update_item Healthy d i kwargs
           = \<lparr>store = d, printed = [NotFound i], result = Returns RNone\<rparr>)) \<and>
   (i \<in> item_id ` set (rows d) \<and> int64 i \<longrightarrow>
      printed (delete_item Healthy d i) = [Deleted i] \<and>
      result (delete_item Healthy d i) = Returns RNone \<and>
      delete_item Healthy (store (delete_item Healthy d i)) i
        = \<lparr>store = store (delete_item Healthy d i), printed = [NotFound i],
           result = Returns RNone\<rparr>)"
proof (intro conjI impI)
  assume "i \<in> item_id ` set (rows d) \<and> int64 i"
  then have del: "delete_item Healthy d i
       = \<lparr>store = d\<lparr>rows := filter (\<lambda>r. item_id r \<noteq> i) (rows d)\<rparr>, printed = [Deleted i],
          result = Returns RNone\<rparr>" and i: "int64 i"
    by (simp_all add: delete_item_removed)
  show "printed (delete_item Healthy d i) = [Deleted i]"
    and "result (delete_item Healthy d i) = Returns RNone"
    by (simp_all add: del)
  have "i \<notin> item_id ` set (rows (store (delete_item Healthy d i)))"
    by (auto simp: del)
  then show "delete_item Healthy (store (delete_item Healthy d i)) i
        = \<lparr>store = store (delete_item Healthy d i), printed = [NotFound i],
           result = Returns RNone\<rparr>"
    using i by (rule delete_item_not_found)
qed (simp_all add: update_item_no_row delete_item_no_row delete_item_not_found
    update_item_not_found)

theorem not_found_is_reported_witness:
  "update_item Healthy laptop_db 2 [(''quantity'', PInt 3)]
     = \<lparr>store = laptop_db, printed = [NotFound 2], result = Returns RNone\<rparr> \<and>
   delete_item Healthy laptop_db 2
     = \<lparr>store = laptop_db, printed = [NotFound 2], result = Returns RNone\<rparr> \<and>
   printed (delete_item Healthy laptop_db 1) = [Deleted 1] \<and>
   delete_item Healthy (store (delete_item Healthy laptop_db 1)) 1
     = \<lparr>store = store (delete_item Healthy laptop_db 1), printed = [NotFound 1],
        result = Returns RNone\<rparr>"
proof -
  have loop: "update_loop [(''quantity'', PInt 3)] [] = Inr [(''quantity'', PInt 3)]"
    by (simp add: valid_fields_def check_field_def)
  show ?thesis
    using not_found_is_reported [of 2 "laptop_db" Healthy
        "[(''quantity'', PInt 3)]" "[(''quantity'', PInt 3)]"]
      not_found_is_reported [of 1 "laptop_db" Healthy "[]" "[]"]
      loop int64_small
    by (simp add: laptop_def laptop_db_def)
qed

text \<open>
  C7, as stated, fails. The caller gets no flag: \<^verbatim>\<open>delete_item\<close> returns \<^verbatim>\<open>None\<close> for the
  id it removed and for the id it did not find, and the two differ in the printed line
  alone. An update of an id that matches no row prints the error of the quantity, not
  the line of the id, when the quantity is negative. And the id \<^verbatim>\<open>2**63\<close>, which matches
  no row, cannot be bound: \<^verbatim>\<open>OverflowError\<close> leaves the method.
\<close>

theorem delete_item_returns_none:
  "result (delete_item Healthy laptop_db 1) = Returns RNone \<and>
   printed (delete_item Healthy laptop_db 1) = [Deleted 1] \<and>
   result (delete_item Healthy laptop_db 2) = Returns RNone \<and>
   printed (delete_item Healthy laptop_db 2) = [NotFound 2] \<and>
   update_item Healthy laptop_db 2 [(''quantity'', PInt (- 1))]
     = \<lparr>store = laptop_db, printed = [Error NegativeQuantity], result = Returns RNone\<rparr> \<and>
   2 ^ 63 \<notin> item_id ` set (rows laptop_db) \<and>
   delete_item Healthy laptop_db (2 ^ 63)
     = \<lparr>store = laptop_db, printed = [], result = Raises OverflowError\<rparr>"
  by (simp add: delete_item_def delete_body_def update_item_def update_body_def handle_def
      valid_fields_def check_field_def engine_defs int64_def max_int64_def laptop_db_def
      laptop_def)

subsection \<open>The id of a new row\<close>

lemma fold_max_ge: "(a::int) \<le> fold max xs a"
  by (induction xs arbitrary: a) (auto intro: order_trans [OF max.cobounded2])

lemma fold_max_mem: "(x::int) \<in> set xs \<Longrightarrow> x \<le> fold max xs a"
proof (induction xs arbitrary: a)
  case Nil
  then show ?case by simp
next
  case (Cons y ys)
  show ?case
  proof (cases "x = y")
    case True
    have "y \<le> max y a" by simp
    also have "\<dots> \<le> fold max ys (max y a)" by (rule fold_max_ge)
    finally show ?thesis using True by simp
  next
    case False
    with Cons show ?thesis by simp
  qed
qed

lemma next_rowid_fresh: "r \<in> set (rows d) \<Longrightarrow> item_id r < next_rowid d"
  using fold_max_mem [of "item_id r" "map item_id (rows d)" "seq d"]
  by (simp add: next_rowid_def)

lemma next_rowid_above_seq: "seq d < next_rowid d"
  using fold_max_ge [of "seq d" "map item_id (rows d)"] by (simp add: next_rowid_def)

lemma create_item_success:
  "nm \<noteq> [] \<Longrightarrow> cat \<noteq> [] \<Longrightarrow> pd \<noteq> [] \<Longrightarrow> st \<noteq> [] \<Longrightarrow> loc \<noteq> [] \<Longrightarrow> 0 \<le> qty \<Longrightarrow> int64 qty \<Longrightarrow>
   strptime pd \<noteq> None \<Longrightarrow> next_rowid d \<le> max_int64 \<Longrightarrow>
     create_item Healthy d nm cat qty pd st loc rp nt
       = \<lparr>store = \<lparr>rows = rows d @
                     [\<lparr>item_id = next_rowid d, name = nm, category = cat, quantity = qty,
                       purchase_date = pd, status = st, location = loc,
                       responsible_person = rp, notes = nt\<rparr>],
                   seq = next_rowid d\<rparr>,
          printed = [Added nm], result = Returns RNone\<rparr>"
  by (simp add: create_item_def create_body_def handle_def engine_defs)

lemma read_all:
  "read_items Healthy e d None
     = \<lparr>store = d, printed = [],
        result = Returns (RRows (sort_key name (sort_key (tie_rank e) (rows d))))\<rparr>"
  by (simp add: read_items_def engine_defs query_conditions_def row_matches_def
      plain_statement_def)

lemma filter_new_row:
  "\<forall>r \<in> set rs. item_id r < j \<Longrightarrow> item_id new = j \<Longrightarrow>
     filter (\<lambda>r. item_id r = j) (sort_key name (sort_key g (rs @ [new]))) = [new]"
proof -
  assume a: "\<forall>r \<in> set rs. item_id r < j" and b: "item_id new = j"
  have "filter (\<lambda>r. item_id r = j) rs = []"
    using a by (auto simp: filter_empty_conv)
  then have "filter (\<lambda>r. item_id r = j) (rs @ [new]) = [new]"
    using b by simp
  then show ?thesis
    by (simp only: filter_sort) simp
qed

text \<open>
  C9, as amended. With valid inputs, a working engine and an id left to assign, create
  appends one row that holds the input fields and a new id, which is larger than the id
  of every row of the table and larger than every id assigned before; it prints the line
  of the addition and returns \<^verbatim>\<open>None\<close>. A query without filters then returns that row, and
  no other row with its id.
\<close>

theorem create_item_assigns_fresh_id:
  "nm \<noteq> [] \<and> cat \<noteq> [] \<and> pd \<noteq> [] \<and> st \<noteq> [] \<and> loc \<noteq> [] \<and> 0 \<le> qty \<and> int64 qty \<and>
   strptime pd \<noteq> None \<and> next_rowid d \<le> max_int64 \<longrightarrow>
     create_item Healthy d nm cat qty pd st loc rp nt
       = \<lparr>store = \<lparr>rows = rows d @
                     [\<lparr>item_id = next_rowid d, name = nm, category = cat, quantity = qty,
                       purchase_date = pd, status = st, location = loc,
                       responsible_person = rp, notes = nt\<rparr>],
                   seq = next_rowid d\<rparr>,
          printed = [Added nm], result = Returns RNone\<rparr> \<and>
     (\<forall>r \<in> set (rows d). item_id r < next_rowid d) \<and>
     seq d < next_rowid d \<and>
     (\<exists>rs. result (read_items Healthy e (store (create_item Healthy d nm cat qty pd st loc rp nt)) None)
             = Returns (RRows rs) \<and>
           filter (\<lambda>r. item_id r = next_rowid d) rs
             = [\<lparr>item_id = next_rowid d, name = nm, category = cat, quantity = qty,
                 purchase_date = pd, status = st, location = loc,
                 responsible_person = rp, notes = nt\<rparr>])"
proof (intro impI conjI)
  assume a: "nm \<noteq> [] \<and> cat \<noteq> [] \<and> pd \<noteq> [] \<and> st \<noteq> [] \<and> loc \<noteq> [] \<and> 0 \<le> qty \<and> int64 qty \<and>
   strptime pd \<noteq> None \<and> next_rowid d \<le> max_int64"
  then show c: "create_item Healthy d nm cat qty pd st loc rp nt
       = \<lparr>store = \<lparr>rows = rows d @
                     [\<lparr>item_id = next_rowid d, name = nm, category = cat, quantity = qty,
                       purchase_date = pd, status = st, location = loc,
                       responsible_person = rp, notes = nt\<rparr>],
                   seq = next_rowid d\<rparr>,
          printed = [Added nm], result = Returns RNone\<rparr>"
    by (simp add: create_item_success)
  show fresh: "\<forall>r \<in> set (rows d). item_id r < next_rowid d"
    by (simp add: next_rowid_fresh)
  show "seq d < next_rowid d"
    by (rule next_rowid_above_seq)
  show "\<exists>rs. result (read_items Healthy e (store (create_item Healthy d nm cat qty pd st loc rp nt)) None)
             = Returns (RRows rs) \<and>
           filter (\<lambda>r. item_id r = next_rowid d) rs
             = [\<lparr>item_id = next_rowid d, name = nm, category = cat, quantity = qty,
                 purchase_date = pd, status = st, location = loc,
                 responsible_person = rp, notes = nt\<rparr>]"
    using fresh by (simp add: c read_all filter_new_row)
qed

lemma empty_db_sel: "rows empty_db = []" "seq empty_db = 0"
  by (simp_all add: empty_db_def)

lemma next_rowid_empty: "next_rowid empty_db = 1"
  by (simp add: next_rowid_def empty_db_def)

theorem create_item_assigns_fresh_id_witness:
  "create_item Healthy empty_db ''Laptop'' ''Electronics'' 5 ''2024-01-15'' ''in use'' ''Room 101'' [] []
     = \<lparr>store = laptop_db, printed = [Added ''Laptop''], result = Returns RNone\<rparr> \<and>
   result (read_items Healthy rowid_engine laptop_db None) = Returns (RRows [laptop])"
proof -
  have "strptime ''2024-01-15'' \<noteq> None"
    by (simp add: strptime_example)
  moreover have "next_rowid empty_db \<le> max_int64"
    by (simp add: next_rowid_empty max_int64_def)
  ultimately have "create_item Healthy empty_db ''Laptop'' ''Electronics'' 5 ''2024-01-15'' ''in use'' ''Room 101'' [] []
     = \<lparr>store = laptop_db, printed = [Added ''Laptop''], result = Returns RNone\<rparr>"
    using create_item_assigns_fresh_id [of "''Laptop''" "''Electronics''" "''2024-01-15''"
        "''in use''" "''Room 101''" 5 empty_db "[]" "[]"] int64_small
    by (simp add: next_rowid_empty laptop_db_def laptop_def empty_db_sel)
  moreover have "result (read_items Healthy rowid_engine laptop_db None) = Returns (RRows [laptop])"
    by (simp add: read_all laptop_db_def rowid_engine_def)
  ultimately show ?thesis by simp
qed

text \<open>
  C9, as stated, fails: create returns \<^verbatim>\<open>None\<close>, not the row it made, and the caller is
  not told the id.
\<close>

theorem create_item_returns_none:
  "result (create_item Healthy empty_db ''Laptop'' ''Electronics'' 5 ''2024-01-15'' ''in use''
             ''Room 101'' [] []) = Returns RNone \<and>
   result (create_item Healthy empty_db ''Laptop'' ''Electronics'' 5 ''2024-01-15'' ''in use''
             ''Room 101'' [] []) \<noteq> Returns (RRows [laptop])"
  by (simp add: create_item_def create_body_def handle_def engine_defs strptime_example
      int64_small next_rowid_empty max_int64_def)

subsection \<open>The loop of \<^verbatim>\<open>update_item\<close>\<close>

lemma update_loop_raises:
  "update_loop kw acc = Inl e \<Longrightarrow>
     \<exists>(k, v) \<in> set kw. k \<in> set valid_fields \<and> v \<noteq> PNone \<and> check_field k v = Some e"
  by (induction kw acc rule: update_loop.induct) (auto split: if_splits option.splits)

lemma update_loop_failing_entry:
  "(k, v) \<in> set kw \<Longrightarrow> k \<in> set valid_fields \<Longrightarrow> v \<noteq> PNone \<Longrightarrow> check_field k v \<noteq> None \<Longrightarrow>
     \<exists>e. update_loop kw acc = Inl e"
  by (induction kw acc rule: update_loop.induct) (auto split: if_splits option.splits)

lemma check_field_range:
  "check_field k v = Some e \<Longrightarrow>
     e = ValueError NegativeQuantity \<or> e = ValueError BadDate \<or> e = TypeError"
  by (auto simp: check_field_def split: if_splits pyval.splits)

lemma update_item_loop_raises:
  "update_loop kw [] = Inl e \<Longrightarrow>
     update_item f d i kw
       = (case e of
            ValueError ve \<Rightarrow> \<lparr>store = d, printed = [Error ve], result = Returns RNone\<rparr>
          | SqliteError \<Rightarrow> \<lparr>store = d, printed = [DbError], result = Returns RNone\<rparr>
          | _ \<Rightarrow> \<lparr>store = d, printed = [], result = Raises e\<rparr>)"
  by (cases kw) (auto simp: update_item_def update_body_def handle_def split: exn.splits)

lemma update_loop_nothing:
  "\<forall>(k, v) \<in> set kw. \<not> (k \<in> set valid_fields \<and> v \<noteq> PNone) \<Longrightarrow> update_loop kw acc = Inr acc"
  by (induction kw acc rule: update_loop.induct) auto

text \<open>
  C5, as amended. The checks of an update are that a supplied quantity is not negative
  and that \<^verbatim>\<open>strptime\<close> accepts a supplied purchase date for the format \<^verbatim>\<open>%Y-%m-%d\<close>. When
  an entry of a recognized field fails its check, the loop raises before any statement
  is sent: the table is unchanged, whatever the other entries are. Unless a value has
  the wrong type for its field, the error is one of the two validation errors, it is
  printed and the method returns \<^verbatim>\<open>None\<close>. An update without any recognized field that
  carries a value is rejected by a printed line, one for the empty dictionary and
  another otherwise; it returns \<^verbatim>\<open>None\<close> and changes nothing.
\<close>

theorem update_item_validates_before_writing:
  "((k, v) \<in> set kwargs \<and> k \<in> set valid_fields \<and> v \<noteq> PNone \<and> check_field k v \<noteq> None \<longrightarrow>
      store (update_item f d i kwargs) = d \<and>
      (\<exists>e. update_body f d i kwargs = ([], Inl e) \<and>
           (e = ValueError NegativeQuantity \<or> e = ValueError BadDate \<or> e = TypeError)) \<and>
      ((\<forall>(k', v') \<in> set kwargs. check_field k' v' \<noteq> Some TypeError) \<longrightarrow>
         (\<exists>ve. update_item f d i kwargs
                 = \<lparr>store = d, printed = [Error ve], result = Returns RNone\<rparr>))) \<and>
   ((\<forall>(k', v') \<in> set kwargs. \<not> (k' \<in> set valid_fields \<and> v' \<noteq> PNone)) \<longrightarrow>
      update_item f d i kwargs
        = \<lparr>store = d, printed = [if kwargs = [] then NoData else NoFields],
           result = Returns RNone\<rparr>)"
proof (intro conjI impI)
  assume a: "(k, v) \<in> set kwargs \<and> k \<in> set valid_fields \<and> v \<noteq> PNone \<and> check_field k v \<noteq> None"
  then obtain e where e: "update_loop kwargs [] = Inl e"
    using update_loop_failing_entry [of k v kwargs "[]"] by auto
  then obtain k' v' where kv: "(k', v') \<in> set kwargs" "check_field k' v' = Some e"
    using update_loop_raises [of kwargs "[]" e] by auto
  then have range: "e = ValueError NegativeQuantity \<or> e = ValueError BadDate \<or> e = TypeError"
    using check_field_range by blast
  from a have ne: "kwargs \<noteq> []" by auto
  show "store (update_item f d i kwargs) = d"
    using range by (auto simp: update_item_loop_raises [OF e])
  show "\<exists>e. update_body f d i kwargs = ([], Inl e) \<and>
           (e = ValueError NegativeQuantity \<or> e = ValueError BadDate \<or> e = TypeError)"
    using range ne e by (auto simp: update_body_def)
  assume "\<forall>(k', v') \<in> set kwargs. check_field k' v' \<noteq> Some TypeError"
  with kv have "e \<noteq> TypeError" by auto
  with range show "\<exists>ve. update_item f d i kwargs
                 = \<lparr>store = d, printed = [Error ve], result = Returns RNone\<rparr>"
    by (auto simp: update_item_loop_raises [OF e])
next
  assume "\<forall>(k', v') \<in> set kwargs. \<not> (k' \<in> set valid_fields \<and> v' \<noteq> PNone)"
  then have "update_loop kwargs [] = Inr []"
    by (rule update_loop_nothing)
  then show "update_item f d i kwargs
        = \<lparr>store = d, printed = [if kwargs = [] then NoData else NoFields],
           result = Returns RNone\<rparr>"
    by (simp add: update_item_def update_body_def handle_def)
qed

theorem update_item_validates_before_writing_witness:
  "store (update_item Healthy laptop_db 1 [(''name'', PStr ''Desk''), (''quantity'', PInt (- 1))])
     = laptop_db \<and>
   update_item Healthy laptop_db 1 []
     = \<lparr>store = laptop_db, printed = [NoData], result = Returns RNone\<rparr> \<and>
   update_item Healthy laptop_db 1 [(''colour'', PStr ''red'')]
     = \<lparr>store = laptop_db, printed = [NoFields], result = Returns RNone\<rparr>"
proof -
  have "store (update_item Healthy laptop_db 1 [(''name'', PStr ''Desk''), (''quantity'', PInt (- 1))])
     = laptop_db"
    using update_item_validates_before_writing [of "''quantity''" "PInt (- 1)"
        "[(''name'', PStr ''Desk''), (''quantity'', PInt (- 1))]" Healthy laptop_db 1]
    by (simp add: valid_fields_def check_field_def)
  moreover have "update_item Healthy laptop_db 1 []
     = \<lparr>store = laptop_db, printed = [NoData], result = Returns RNone\<rparr>"
    using update_item_validates_before_writing [of "''quantity''" "PInt (- 1)" "[]" Healthy laptop_db 1]
    by simp
  moreover have "update_item Healthy laptop_db 1 [(''colour'', PStr ''red'')]
     = \<lparr>store = laptop_db, printed = [NoFields], result = Returns RNone\<rparr>"
    using update_item_validates_before_writing [of "''quantity''" "PInt (- 1)"
        "[(''colour'', PStr ''red'')]" Healthy laptop_db 1]
    by (simp add: valid_fields_def)
  ultimately show ?thesis by simp
qed

text \<open>
  C5, as stated, fails. An update without fields raises no error: the body of the method
  returns, a line is printed (one of two) and the result is \<^verbatim>\<open>None\<close>. And the purchase
  date \<^verbatim>\<open>2024-1-5\<close>, which is not of the fixed form, passes the check and is written.
\<close>

theorem update_item_rejects_by_printing:
  "update_body Healthy laptop_db 1 [] = ([NoData], Inr laptop_db) \<and>
   update_item Healthy laptop_db 1 []
     = \<lparr>store = laptop_db, printed = [NoData], result = Returns RNone\<rparr> \<and>
   update_body Healthy laptop_db 1 [(''colour'', PStr ''red'')] = ([NoFields], Inr laptop_db) \<and>
   update_item Healthy laptop_db 1 [(''colour'', PStr ''red'')]
     = \<lparr>store = laptop_db, printed = [NoFields], result = Returns RNone\<rparr> \<and>
   \<not> iso_date_format ''2024-1-5'' \<and>
   update_item Healthy laptop_db 1 [(''purchase_date'', PStr ''2024-1-5'')]
     = \<lparr>store = \<lparr>rows = [laptop\<lparr>purchase_date := ''2024-1-5''\<rparr>], seq = 1\<rparr>,
        printed = [Updated 1], result = Returns RNone\<rparr>"
  by (simp add: update_item_def update_body_def handle_def engine_defs valid_fields_def
      check_field_def strptime_short iso_date_format_def int64_def max_int64_def laptop_db_def
      laptop_def set_column_def)

subsection \<open>What \<^verbatim>\<open>update_item\<close> writes\<close>

lemma item_id_set_column: "item_id (set_column a r) = item_id r"
  by (cases a) (auto simp: set_column_def split: pyval.splits)

lemma item_id_fold_set_column: "item_id (fold set_column flds r) = item_id r"
  by (induction flds arbitrary: r) (simp_all add: item_id_set_column)

lemma set_column_other: "k \<noteq> c \<Longrightarrow> get_column c (set_column (k, v) r) = get_column c r"
  by (auto simp: get_column_def set_column_def split: pyval.splits)

lemma set_column_same:
  "c \<in> set valid_fields \<Longrightarrow> v \<noteq> PNone \<Longrightarrow> check_field c v = None \<Longrightarrow>
     get_column c (set_column (c, v) r) = stored_value c v"
  by (cases v)
    (auto simp: get_column_def set_column_def stored_value_def valid_fields_def check_field_def
      split: if_splits)

lemma fold_set_column_other:
  "c \<notin> fst ` set flds \<Longrightarrow> get_column c (fold set_column flds r) = get_column c r"
proof (induction flds arbitrary: r)
  case Nil
  then show ?case by simp
next
  case (Cons a flds)
  obtain k v where a: "a = (k, v)" by (cases a)
  with Cons.prems have "k \<noteq> c" by auto
  with Cons a show ?case by (simp add: set_column_other)
qed

lemma fold_set_column:
  "distinct (map fst flds) \<Longrightarrow>
   \<forall>(k, v) \<in> set flds. k \<in> set valid_fields \<and> v \<noteq> PNone \<and> check_field k v = None \<Longrightarrow>
     get_column c (fold set_column flds r)
       = (case map_of flds c of None \<Rightarrow> get_column c r | Some v \<Rightarrow> stored_value c v)"
proof (induction flds arbitrary: r)
  case Nil
  then show ?case by simp
next
  case (Cons a flds)
  obtain k v where a: "a = (k, v)" by (cases a)
  show ?case
  proof (cases "k = c")
    case True
    with Cons.prems a have "c \<notin> fst ` set flds" by auto
    then have "get_column c (fold set_column flds (set_column (c, v) r))
        = get_column c (set_column (c, v) r)"
      by (rule fold_set_column_other)
    also have "\<dots> = stored_value c v"
      using Cons.prems a True by (auto intro: set_column_same)
    finally show ?thesis using a True by simp
  next
    case False
    have "get_column c (fold set_column flds (set_column (k, v) r))
        = (case map_of flds c of None \<Rightarrow> get_column c (set_column (k, v) r)
           | Some w \<Rightarrow> stored_value c w)"
      using Cons.prems by (intro Cons.IH) auto
    then show ?thesis
      using a False by (simp add: set_column_other split: option.splits)
  qed
qed

lemma update_loop_checked:
  "update_loop kw acc = Inr flds \<Longrightarrow>
   \<forall>(k, v) \<in> set acc. k \<in> set valid_fields \<and> v \<noteq> PNone \<and> check_field k v = None \<Longrightarrow>
     \<forall>(k, v) \<in> set flds. k \<in> set valid_fields \<and> v \<noteq> PNone \<and> check_field k v = None"
  by (induction kw acc rule: update_loop.induct) (auto split: if_splits option.splits)

text \<open>
  The parameters that reach the statement are typed as the columns: never \<^verbatim>\<open>None\<close>,
  an integer for \<^verbatim>\<open>quantity\<close>, and only columns of \<open>valid_fields\<close>.
\<close>

lemma update_loop_typed:
  "update_loop kw [] = Inr flds \<Longrightarrow> (k, v) \<in> set flds \<Longrightarrow>
     k \<in> set valid_fields \<and> v \<noteq> PNone \<and> (k = ''quantity'' \<longrightarrow> (\<exists>n. v = PInt n \<and> 0 \<le> n))"
proof -
  assume a: "update_loop kw [] = Inr flds" "(k, v) \<in> set flds"
  have "\<forall>(k, v) \<in> set flds. k \<in> set valid_fields \<and> v \<noteq> PNone \<and> check_field k v = None"
    using a(1) by (rule update_loop_checked) simp
  with a(2) have "k \<in> set valid_fields" "v \<noteq> PNone" "check_field k v = None"
    by auto
  then show ?thesis
    by (cases v) (auto simp: check_field_def split: if_splits)
qed

lemma map_of_filter_distinct:
  "distinct (map fst kw) \<Longrightarrow>
     map_of (filter (\<lambda>(k, v). P k v) kw) c
       = (case map_of kw c of None \<Rightarrow> None | Some v \<Rightarrow> if P c v then Some v else None)"
proof (induction kw)
  case Nil
  then show ?case by simp
next
  case (Cons a kw)
  obtain k v where a: "a = (k, v)" by (cases a)
  from Cons.prems a have notin: "k \<notin> fst ` set kw" by auto
  then have none: "map_of kw k = None"
    by (simp add: map_of_eq_None_iff)
  from Cons have ih: "map_of (filter (\<lambda>(k, v). P k v) kw) c
       = (case map_of kw c of None \<Rightarrow> None | Some v \<Rightarrow> if P c v then Some v else None)"
    by simp
  show ?case
    using a ih none by (cases "k = c") auto
qed

lemma update_loop_recognized:
  "update_loop kw acc = update_loop (filter (\<lambda>(k, v). k \<in> set valid_fields) kw) acc"
  by (induction kw acc rule: update_loop.induct) (auto split: option.splits)

lemma update_loop_drop_none:
  "update_loop kw acc = update_loop (filter (\<lambda>(k, v). v \<noteq> PNone) kw) acc"
  by (induction kw acc rule: update_loop.induct) (auto split: option.splits)

lemma update_item_cong:
  "update_loop kw [] = update_loop kw' [] \<Longrightarrow> (kw = [] \<longleftrightarrow> kw' = []) \<Longrightarrow>
     update_item f d i kw = update_item f d i kw'"
  by (simp add: update_item_def update_body_def)

lemma update_item_updated:
  "printed (update_item f d i kw) = [Updated i] \<Longrightarrow>
     \<exists>flds. update_loop kw [] = Inr flds \<and> flds \<noteq> [] \<and>
       update_item f d i kw
         = \<lparr>store = d\<lparr>rows := map (\<lambda>r. if item_id r = i then fold set_column flds r else r)
                                 (rows d)\<rparr>,
            printed = [Updated i], result = Returns RNone\<rparr>"
  by (cases f)
    (auto simp: update_item_def update_body_def handle_def engine_defs Let_def
      split: sum.splits exn.splits if_splits)

lemma update_item_store_cases:
  "store (update_item f d i kw) = d \<or>
   (\<exists>flds. update_loop kw [] = Inr flds \<and>
      store (update_item f d i kw)
        = d\<lparr>rows := map (\<lambda>r. if item_id r = i then fold set_column flds r else r) (rows d)\<rparr>)"
  by (cases f)
    (auto simp: update_item_def update_body_def handle_def engine_defs Let_def
      split: sum.splits exn.splits if_splits)

text \<open>
  C4. An update that succeeds (it prints the line of the update, and nothing else) returns
  \<^verbatim>\<open>None\<close>, keeps the counter and the number and order of the rows, keeps the id of every
  row and keeps every row with another id as it is. In a row with the given id, each
  column of \<open>valid_fields\<close> holds the supplied value if the dictionary supplies one that
  is not \<^verbatim>\<open>None\<close>, and what it held before otherwise. Entries with other keys change
  nothing: the call does what the call without them does.
\<close>

theorem update_item_frame:
  "printed (update_item f d i kwargs) = [Updated i] \<and> distinct (map fst kwargs) \<longrightarrow>
     result (update_item f d i kwargs) = Returns RNone \<and>
     seq (store (update_item f d i kwargs)) = seq d \<and>
     length (rows (store (update_item f d i kwargs))) = length (rows d) \<and>
     (\<forall>n < length (rows d).
        item_id (rows (store (update_item f d i kwargs)) ! n) = item_id (rows d ! n) \<and>
        (item_id (rows d ! n) \<noteq> i \<longrightarrow>
           rows (store (update_item f d i kwargs)) ! n = rows d ! n) \<and>
        (item_id (rows d ! n) = i \<longrightarrow>
           (\<forall>c \<in> set valid_fields.
              get_column c (rows (store (update_item f d i kwargs)) ! n)
                = (case map_of kwargs c of
                     None \<Rightarrow> get_column c (rows d ! n)
                   | Some v \<Rightarrow> if v = PNone then get_column c (rows d ! n)
                              else stored_value c v)))) \<and>
     update_item f d i kwargs
       = update_item f d i (filter (\<lambda>(k, v). k \<in> set valid_fields) kwargs)"
proof (intro impI)
  assume a: "printed (update_item f d i kwargs) = [Updated i] \<and> distinct (map fst kwargs)"
  then obtain flds where loop: "update_loop kwargs [] = Inr flds" and ne: "flds \<noteq> []"
    and upd: "update_item f d i kwargs
         = \<lparr>store = d\<lparr>rows := map (\<lambda>r. if item_id r = i then fold set_column flds r else r)
                                 (rows d)\<rparr>,
            printed = [Updated i], result = Returns RNone\<rparr>"
    using update_item_updated [of f d i kwargs] by auto
  have flds: "flds = filter (\<lambda>(k, v). k \<in> set valid_fields \<and> v \<noteq> PNone) kwargs"
    using update_loop_append [OF loop] by simp
  have checked: "\<forall>(k, v) \<in> set flds. k \<in> set valid_fields \<and> v \<noteq> PNone \<and> check_field k v = None"
    using loop by (rule update_loop_checked) simp
  have dist: "distinct (map fst flds)"
    using a by (simp add: flds distinct_map_filter)
  have col: "get_column c (fold set_column flds r)
      = (case map_of kwargs c of None \<Rightarrow> get_column c r
         | Some v \<Rightarrow> if v = PNone then get_column c r else stored_value c v)"
    if "c \<in> set valid_fields" for c r
  proof -
    have "map_of flds c
        = (case map_of kwargs c of None \<Rightarrow> None
           | Some v \<Rightarrow> if c \<in> set valid_fields \<and> v \<noteq> PNone then Some v else None)"
      using a unfolding flds by (intro map_of_filter_distinct) simp
    then show ?thesis
      using that by (simp add: fold_set_column [OF dist checked] split: option.splits)
  qed
  have row: "item_id (rows (store (update_item f d i kwargs)) ! n) = item_id (rows d ! n) \<and>
        (item_id (rows d ! n) \<noteq> i \<longrightarrow>
           rows (store (update_item f d i kwargs)) ! n = rows d ! n) \<and>
        (item_id (rows d ! n) = i \<longrightarrow>
           (\<forall>c \<in> set valid_fields.
              get_column c (rows (store (update_item f d i kwargs)) ! n)
                = (case map_of kwargs c of
                     None \<Rightarrow> get_column c (rows d ! n)
                   | Some v \<Rightarrow> if v = PNone then get_column c (rows d ! n)
                              else stored_value c v)))"
    if "n < length (rows d)" for n
    using that by (simp add: upd item_id_fold_set_column col)
  have "filter (\<lambda>(k, v). k \<in> set valid_fields) kwargs \<noteq> []"
    using ne unfolding flds by (auto simp: filter_empty_conv)
  moreover from this have "kwargs \<noteq> []" by auto
  ultimately have same: "update_item f d i kwargs
       = update_item f d i (filter (\<lambda>(k, v). k \<in> set valid_fields) kwargs)"
    by (intro update_item_cong) (simp_all add: update_loop_recognized [symmetric])
  show "result (update_item f d i kwargs) = Returns RNone \<and>
     seq (store (update_item f d i kwargs)) = seq d \<and>
     length (rows (store (update_item f d i kwargs))) = length (rows d) \<and>
     (\<forall>n < length (rows d).
        item_id (rows (store (update_item f d i kwargs)) ! n) = item_id (rows d ! n) \<and>
        (item_id (rows d ! n) \<noteq> i \<longrightarrow>
           rows (store (update_item f d i kwargs)) ! n = rows d ! n) \<and>
        (item_id (rows d ! n) = i \<longrightarrow>
           (\<forall>c \<in> set valid_fields.
              get_column c (rows (store (update_item f d i kwargs)) ! n)
                = (case map_of kwargs c of
                     None \<Rightarrow> get_column c (rows d ! n)
                   | Some v \<Rightarrow> if v = PNone then get_column c (rows d ! n)
                              else stored_value c v)))) \<and>
     update_item f d i kwargs
       = update_item f d i (filter (\<lambda>(k, v). k \<in> set valid_fields) kwargs)"
  proof (intro conjI)
    show "update_item f d i kwargs
       = update_item f d i (filter (\<lambda>(k, v). k \<in> set valid_fields) kwargs)"
      by (rule same)
  qed (use row in \<open>simp_all add: upd\<close>)
qed

lemma update_laptop_quantity:
  "update_item Healthy laptop_db 1 [(''quantity'', PInt 3), (''colour'', PStr ''red'')]
     = \<lparr>store = \<lparr>rows = [laptop\<lparr>quantity := 3\<rparr>], seq = 1\<rparr>, printed = [Updated 1],
        result = Returns RNone\<rparr>"
  by (simp add: update_item_def update_body_def handle_def engine_defs valid_fields_def
      check_field_def int64_small laptop_db_def laptop_def set_column_def)

theorem update_item_frame_witness:
  "printed (update_item Healthy laptop_db 1 [(''quantity'', PInt 3), (''colour'', PStr ''red'')])
     = [Updated 1] \<and>
   distinct (map fst [(''quantity'', PInt 3), (''colour'', PStr ''red'')]) \<and>
   get_column ''quantity''
     (rows (store (update_item Healthy laptop_db 1
                     [(''quantity'', PInt 3), (''colour'', PStr ''red'')])) ! 0) = PInt 3 \<and>
   get_column ''name''
     (rows (store (update_item Healthy laptop_db 1
                     [(''quantity'', PInt 3), (''colour'', PStr ''red'')])) ! 0) = PStr ''Laptop'' \<and>
   update_item Healthy laptop_db 1 [(''quantity'', PInt 3), (''colour'', PStr ''red'')]
     = update_item Healthy laptop_db 1 [(''quantity'', PInt 3)]"
proof -
  have p: "printed (update_item Healthy laptop_db 1 [(''quantity'', PInt 3), (''colour'', PStr ''red'')])
     = [Updated 1]"
    by (simp add: update_laptop_quantity)
  have d: "distinct (map fst [(''quantity'', PInt 3), (''colour'', PStr ''red'')])"
    by simp
  have l: "rows laptop_db ! 0 = laptop" "length (rows laptop_db) = 1"
    by (simp_all add: laptop_db_def)
  have g: "get_column ''name'' laptop = PStr ''Laptop''" "item_id laptop = 1"
    by (simp_all add: get_column_def laptop_def)
  note inst = update_item_frame [of Healthy laptop_db 1
      "[(''quantity'', PInt 3), (''colour'', PStr ''red'')]", THEN mp, OF conjI [OF p d]]
  note cols = inst [THEN conjunct2, THEN conjunct2, THEN conjunct2, THEN conjunct1]
  note same = inst [THEN conjunct2, THEN conjunct2, THEN conjunct2, THEN conjunct2]
  have "get_column ''quantity''
     (rows (store (update_item Healthy laptop_db 1
                     [(''quantity'', PInt 3), (''colour'', PStr ''red'')])) ! 0) = PInt 3"
    and "get_column ''name''
     (rows (store (update_item Healthy laptop_db 1
                     [(''quantity'', PInt 3), (''colour'', PStr ''red'')])) ! 0) = PStr ''Laptop''"
    using cols l g by (simp_all add: valid_fields_def stored_value_def)
  moreover have "update_item Healthy laptop_db 1 [(''quantity'', PInt 3), (''colour'', PStr ''red'')]
     = update_item Healthy laptop_db 1 [(''quantity'', PInt 3)]"
    using same by (simp add: valid_fields_def)
  ultimately show ?thesis
    using p d by blast
qed

text \<open>
  C10. The loop passes over an entry whose value is \<^verbatim>\<open>None\<close> as if it were not there: it
  is not checked and not collected, so the call does what the call without such entries
  does, as long as one entry is left. The column of such an entry holds in every row what
  it held before. When every recognized field carries \<^verbatim>\<open>None\<close>, the update is rejected
  by the line of the missing fields and the table is unchanged.
\<close>

theorem update_item_none_is_absent:
  "update_loop kwargs acc = update_loop (filter (\<lambda>(k, v). v \<noteq> PNone) kwargs) acc \<and>
   (filter (\<lambda>(k, v). v \<noteq> PNone) kwargs \<noteq> [] \<longrightarrow>
      update_item f d i kwargs = update_item f d i (filter (\<lambda>(k, v). v \<noteq> PNone) kwargs)) \<and>
   ((k, PNone) \<in> set kwargs \<and> distinct (map fst kwargs) \<longrightarrow>
      map (get_column k) (rows (store (update_item f d i kwargs))) = map (get_column k) (rows d)) \<and>
   (kwargs \<noteq> [] \<and> (\<forall>(k', v') \<in> set kwargs. k' \<in> set valid_fields \<longrightarrow> v' = PNone) \<longrightarrow>
      update_item f d i kwargs
        = \<lparr>store = d, printed = [NoFields], result = Returns RNone\<rparr>)"
proof (intro conjI impI)
  show "update_loop kwargs acc = update_loop (filter (\<lambda>(k, v). v \<noteq> PNone) kwargs) acc"
    by (rule update_loop_drop_none)
next
  assume ne: "filter (\<lambda>(k, v). v \<noteq> PNone) kwargs \<noteq> []"
  then have "kwargs \<noteq> []" by auto
  with ne show "update_item f d i kwargs
      = update_item f d i (filter (\<lambda>(k, v). v \<noteq> PNone) kwargs)"
    by (intro update_item_cong) (simp_all add: update_loop_drop_none [symmetric])
next
  assume a: "(k, PNone) \<in> set kwargs \<and> distinct (map fst kwargs)"
  have absent: "k \<notin> fst ` set flds" if "update_loop kwargs [] = Inr flds" for flds
  proof
    assume "k \<in> fst ` set flds"
    then obtain v where "(k, v) \<in> set flds" by auto
    then have "(k, v) \<in> set kwargs" "v \<noteq> PNone"
      using update_loop_append [OF that] by auto
    with a show False
      by (metis eq_key_imp_eq_value)
  qed
  from update_item_store_cases [of f d i kwargs]
  show "map (get_column k) (rows (store (update_item f d i kwargs))) = map (get_column k) (rows d)"
  proof
    assume "store (update_item f d i kwargs) = d"
    then show ?thesis by simp
  next
    assume "\<exists>flds. update_loop kwargs [] = Inr flds \<and>
      store (update_item f d i kwargs)
        = d\<lparr>rows := map (\<lambda>r. if item_id r = i then fold set_column flds r else r) (rows d)\<rparr>"
    then obtain flds where loop: "update_loop kwargs [] = Inr flds"
      and st: "store (update_item f d i kwargs)
        = d\<lparr>rows := map (\<lambda>r. if item_id r = i then fold set_column flds r else r) (rows d)\<rparr>"
      by auto
    show ?thesis
      by (simp add: st fold_set_column_other [OF absent [OF loop]])
  qed
next
  assume a: "kwargs \<noteq> [] \<and> (\<forall>(k', v') \<in> set kwargs. k' \<in> set valid_fields \<longrightarrow> v' = PNone)"
  then have "update_loop kwargs [] = Inr []"
    by (intro update_loop_nothing) auto
  with a show "update_item f d i kwargs
        = \<lparr>store = d, printed = [NoFields], result = Returns RNone\<rparr>"
    by (simp add: update_item_def update_body_def handle_def)
qed

theorem update_item_none_is_absent_witness:
  "update_item Healthy laptop_db 1 [(''name'', PNone), (''quantity'', PInt 3)]
     = update_item Healthy laptop_db 1 [(''quantity'', PInt 3)] \<and>
   map (get_column ''name'')
     (rows (store (update_item Healthy laptop_db 1 [(''name'', PNone), (''quantity'', PInt 3)])))
     = [PStr ''Laptop''] \<and>
   update_item Healthy laptop_db 1 [(''name'', PNone), (''colour'', PStr ''red'')]
     = \<lparr>store = laptop_db, printed = [NoFields], result = Returns RNone\<rparr>"
proof -
  note one = update_item_none_is_absent [of "[(''name'', PNone), (''quantity'', PInt 3)]" "[]"
      Healthy laptop_db 1 "''name''"]
  note two = update_item_none_is_absent [of "[(''name'', PNone), (''colour'', PStr ''red'')]" "[]"
      Healthy laptop_db 1 "''name''"]
  have "update_item Healthy laptop_db 1 [(''name'', PNone), (''quantity'', PInt 3)]
     = update_item Healthy laptop_db 1 [(''quantity'', PInt 3)]"
    using one [THEN conjunct2, THEN conjunct1] by simp
  moreover have "map (get_column ''name'')
     (rows (store (update_item Healthy laptop_db 1 [(''name'', PNone), (''quantity'', PInt 3)])))
     = [PStr ''Laptop'']"
    using one [THEN conjunct2, THEN conjunct2, THEN conjunct1]
    by (simp add: laptop_db_def laptop_def get_column_def)
  moreover have "update_item Healthy laptop_db 1 [(''name'', PNone), (''colour'', PStr ''red'')]
     = \<lparr>store = laptop_db, printed = [NoFields], result = Returns RNone\<rparr>"
    using two [THEN conjunct2, THEN conjunct2, THEN conjunct2]
    by (simp add: valid_fields_def)
  ultimately show ?thesis by blast
qed

subsection \<open>Patterns\<close>

lemma pattern_compare_percent: "pattern_compare ''%'' t"
  by (induction t) simp_all

lemma pattern_compare_prefix:
  "CHR ''%'' \<notin> set p \<Longrightarrow> CHR ''_'' \<notin> set p \<Longrightarrow>
     pattern_compare (p @ ''%'') t = starts_with_ci p t"
proof (induction p t rule: starts_with_ci.induct)
  case (1 t)
  then show ?case by (simp add: pattern_compare_percent)
next
  case (2 p ps)
  then show ?case by auto
next
  case (3 p ps c cs)
  then show ?case by auto
qed

lemma pattern_compare_contains:
  "CHR ''%'' \<notin> set p \<Longrightarrow> CHR ''_'' \<notin> set p \<Longrightarrow>
     pattern_compare (''%'' @ p @ ''%'') t = contains_ci p t"
proof (induction t)
  case Nil
  then show ?case
    using pattern_compare_prefix [of p "[]"] by (cases p) simp_all
next
  case (Cons c cs)
  then show ?case
    using pattern_compare_prefix [of p "c # cs"] by simp
qed

lemma c_string_plain: "CHR 0x00 \<notin> set s \<Longrightarrow> c_string s = s"
  by (simp add: c_string_def takeWhile_eq_all_conv) auto

lemma sqlite_like_contains:
  "plain_value p \<Longrightarrow> sqlite_like (''%'' @ p @ ''%'') t = contains_ci p (c_string t)"
proof -
  assume p: "plain_value p"
  then have "CHR 0x00 \<notin> set (''%'' @ p @ ''%'')"
    by (simp add: plain_value_def)
  then have "c_string (''%'' @ p @ ''%'') = ''%'' @ p @ ''%''"
    by (rule c_string_plain)
  then show ?thesis
    using p pattern_compare_contains [of p "c_string t"]
    by (simp add: sqlite_like_def plain_value_def)
qed

lemma starts_with_ci_iff:
  "starts_with_ci p t \<longleftrightarrow> (\<exists>post. map lower_ascii t = map lower_ascii p @ post)"
  by (induction p t rule: starts_with_ci.induct) auto

lemma contains_ci_iff:
  "contains_ci p t \<longleftrightarrow> (\<exists>pre post. map lower_ascii t = pre @ map lower_ascii p @ post)"
proof (induction t)
  case Nil
  then show ?case by auto
next
  case (Cons c cs)
  show ?case
  proof
    assume "contains_ci p (c # cs)"
    then consider "starts_with_ci p (c # cs)" | "contains_ci p cs" by auto
    then show "\<exists>pre post. map lower_ascii (c # cs) = pre @ map lower_ascii p @ post"
    proof cases
      case 1
      then obtain post where "map lower_ascii (c # cs) = map lower_ascii p @ post"
        using starts_with_ci_iff by blast
      then have "map lower_ascii (c # cs) = [] @ map lower_ascii p @ post" by simp
      then show ?thesis by blast
    next
      case 2
      then obtain pre post where "map lower_ascii cs = pre @ map lower_ascii p @ post"
        using Cons by blast
      then have "map lower_ascii (c # cs) = (lower_ascii c # pre) @ map lower_ascii p @ post"
        by simp
      then show ?thesis by blast
    qed
  next
    assume "\<exists>pre post. map lower_ascii (c # cs) = pre @ map lower_ascii p @ post"
    then obtain pre post where e: "map lower_ascii (c # cs) = pre @ map lower_ascii p @ post"
      by blast
    show "contains_ci p (c # cs)"
    proof (cases pre)
      case Nil
      with e have "starts_with_ci p (c # cs)"
        using starts_with_ci_iff [of p "c # cs"] by auto
      then show ?thesis by simp
    next
      case (Cons x pre')
      with e have "map lower_ascii cs = pre' @ map lower_ascii p @ post" by simp
      then have "contains_ci p cs"
        using Cons.IH by blast
      then show ?thesis by simp
    qed
  qed
qed

subsection \<open>The rows a query selects\<close>

lemma sorted_ids_filter:
  "sorted_wrt (<) (map item_id xs) \<Longrightarrow> sorted_wrt (<) (map item_id (filter P xs))"
  by (induction xs) auto

lemma row_matches_selected_row:
  "row_matches (where_conditions fs) r = selected fs r"
  by (induction fs)
    (auto simp: row_matches_def where_conditions_def selected_def split: option.splits)

lemma row_matches_selected:
  "row_matches (where_conditions fs) = selected fs"
  by (rule ext) (rule row_matches_selected_row)

lemma selected_substring_eq:
  "\<forall>(k, v) \<in> set fs. truthy v \<longrightarrow> plain_value (format v) \<Longrightarrow>
     selected fs r = selected_substring fs r"
  by (induction fs)
    (auto simp: selected_def selected_substring_def sqlite_like_contains [simplified]
      split: option.splits)

lemma selected_no_entry:
  "\<forall>(k, v) \<in> set fs. \<not> truthy v \<Longrightarrow> selected fs r"
  by (induction fs) (auto simp: selected_def)

lemma plain_where_conditions:
  "\<forall>(k, v) \<in> set fs. truthy v \<longrightarrow>
     schema_column k \<noteq> None \<and> utf8_length (''%'' @ format v @ ''%'') \<le> max_like_pattern \<Longrightarrow>
     plain_statement (where_conditions fs)"
  by (induction fs) (auto simp: where_conditions_def plain_statement_def)

lemma query_conditions_entries:
  "query_conditions filters = where_conditions (filter_entries filters)"
  by (cases filters) (simp_all add: query_conditions_def filter_entries_def where_conditions_def)

lemma read_items_rows:
  "f = Healthy \<or> f = CommitFails \<Longrightarrow>
   \<forall>(k, v) \<in> set (filter_entries filters). truthy v \<longrightarrow>
     schema_column k \<noteq> None \<and> utf8_length (''%'' @ format v @ ''%'') \<le> max_like_pattern \<Longrightarrow>
     read_items f e d filters
       = \<lparr>store = d, printed = [],
          result = Returns (RRows (sort_key name (sort_key (tie_rank e)
                     (filter (selected (filter_entries filters)) (rows d)))))\<rparr>"
  using plain_where_conditions [of "filter_entries filters"]
  by (auto simp: read_items_def engine_defs query_conditions_entries row_matches_selected)

text \<open>
  C3, as amended. With an engine that connects and executes and a filter set in which
  every entry with a true value has for key a column as the schema spells it and makes a
  pattern within the limit of the engine, \<^verbatim>\<open>read_items\<close> returns exactly the rows in which
  the column of every such entry matches the pattern of \<^verbatim>\<open>LIKE\<close> made of the value between
  two \<^verbatim>\<open>%\<close>; entries with an empty value are passed over. When no value holds \<^verbatim>\<open>%\<close>, \<^verbatim>\<open>_\<close>
  or NUL, these are exactly the rows in which each such column, up to its first NUL,
  contains the value as a substring, the letters A to Z taken as their lower-case forms.
  Without an entry of a true value every row is returned. The result is in ascending
  order of name, whatever order the engine gives to rows of equal name.
\<close>

theorem read_items_selects:
  "(f = Healthy \<or> f = CommitFails) \<and>
   (\<forall>(k, v) \<in> set (filter_entries filters). truthy v \<longrightarrow>
      schema_column k \<noteq> None \<and> utf8_length (''%'' @ format v @ ''%'') \<le> max_like_pattern) \<longrightarrow>
     (\<exists>rs. read_items f e d filters = \<lparr>store = d, printed = [], result = Returns (RRows rs)\<rparr> \<and>
        mset rs = mset (filter (selected (filter_entries filters)) (rows d)) \<and>
        sorted (map name rs) \<and>
        ((\<forall>(k, v) \<in> set (filter_entries filters). truthy v \<longrightarrow> plain_value (format v)) \<longrightarrow>
           mset rs = mset (filter (selected_substring (filter_entries filters)) (rows d))) \<and>
        ((\<forall>(k, v) \<in> set (filter_entries filters). \<not> truthy v) \<longrightarrow> mset rs = mset (rows d)))"
proof (intro impI)
  let ?fs = "filter_entries filters"
  let ?rs = "sort_key name (sort_key (tie_rank e) (filter (selected ?fs) (rows d)))"
  assume a: "(f = Healthy \<or> f = CommitFails) \<and>
   (\<forall>(k, v) \<in> set ?fs. truthy v \<longrightarrow>
      schema_column k \<noteq> None \<and> utf8_length (''%'' @ format v @ ''%'') \<le> max_like_pattern)"
  then have r: "read_items f e d filters
      = \<lparr>store = d, printed = [], result = Returns (RRows ?rs)\<rparr>"
    by (intro read_items_rows) simp_all
  have m: "mset ?rs = mset (filter (selected ?fs) (rows d))"
    by simp
  have s: "sorted (map name ?rs)"
    by (rule sorted_sort_key)
  have w: "mset ?rs = mset (filter (selected_substring ?fs) (rows d))"
    if "\<forall>(k, v) \<in> set ?fs. truthy v \<longrightarrow> plain_value (format v)"
  proof -
    have "selected ?fs = selected_substring ?fs"
      using that by (intro ext selected_substring_eq)
    then show ?thesis by simp
  qed
  have n: "mset ?rs = mset (rows d)" if "\<forall>(k, v) \<in> set ?fs. \<not> truthy v"
    using that by (simp add: selected_no_entry)
  from r m s w n
  show "\<exists>rs. read_items f e d filters = \<lparr>store = d, printed = [], result = Returns (RRows rs)\<rparr> \<and>
        mset rs = mset (filter (selected ?fs) (rows d)) \<and>
        sorted (map name rs) \<and>
        ((\<forall>(k, v) \<in> set ?fs. truthy v \<longrightarrow> plain_value (format v)) \<longrightarrow>
           mset rs = mset (filter (selected_substring ?fs) (rows d))) \<and>
        ((\<forall>(k, v) \<in> set ?fs. \<not> truthy v) \<longrightarrow> mset rs = mset (rows d))"
    by blast
qed

lemma contains_examples:
  "contains_ci ''electr'' ''Electronics''" "\<not> contains_ci ''electr'' ''Furniture''"
  "contains_ci ''101'' ''Room 101''" "\<not> contains_ci ''101'' ''Room 202''"
  by code_simp+

lemma c_string_examples:
  "c_string ''Electronics'' = ''Electronics''" "c_string ''Furniture'' = ''Furniture''"
  "c_string ''Room 101'' = ''Room 101''" "c_string ''Room 202'' = ''Room 202''"
  by (simp_all add: c_string_def)

lemma schema_column_examples:
  "schema_column ''category'' = Some category" "schema_column ''location'' = Some location"
  "schema_column ''name'' = Some name"
  by (simp_all add: schema_column_def)

lemma selected_substring_example:
  "selected_substring [(''category'', PStr ''electr''), (''location'', PStr ''101''),
                       (''name'', PStr [])] r
     = (contains_ci ''electr'' (c_string (category r)) \<and>
        contains_ci ''101'' (c_string (location r)))"
  by (simp add: selected_substring_def schema_column_examples)

lemma office_rows:
  "category laptop = ''Electronics''" "location laptop = ''Room 101''"
  by (simp_all add: laptop_def)

lemma office_matches:
  "selected_substring [(''category'', PStr ''electr''), (''location'', PStr ''101''),
                       (''name'', PStr [])] laptop"
  "\<not> selected_substring [(''category'', PStr ''electr''), (''location'', PStr ''101''),
                         (''name'', PStr [])]
       (laptop\<lparr>item_id := 2, name := ''Chair'', category := ''Furniture''\<rparr>)"
  "\<not> selected_substring [(''category'', PStr ''electr''), (''location'', PStr ''101''),
                         (''name'', PStr [])]
       (laptop\<lparr>item_id := 3, name := ''Printer'', location := ''Room 202''\<rparr>)"
  "selected_substring [(''category'', PStr ''electr''), (''location'', PStr ''101''),
                       (''name'', PStr [])] (laptop\<lparr>item_id := 4, name := ''Cable''\<rparr>)"
  unfolding selected_substring_example
  by (simp_all add: office_rows c_string_examples contains_examples del: contains_ci.simps)

lemma office_selected:
  "filter (selected_substring [(''category'', PStr ''electr''), (''location'', PStr ''101''),
                               (''name'', PStr [])]) (rows office_db)
     = [laptop, laptop\<lparr>item_id := 4, name := ''Cable''\<rparr>]"
  by (simp add: office_db_def office_matches)

lemma two_sorted:
  "mset rs = mset [a, b] \<Longrightarrow> sorted (map name rs) \<Longrightarrow> name b < name a \<Longrightarrow> rs = [b, a]"
proof -
  assume m: "mset rs = mset [a, b]" and s: "sorted (map name rs)" and l: "name b < name a"
  from m have "length rs = length [a, b]"
    by (rule mset_eq_length)
  then have "length rs = Suc (Suc 0)" by simp
  then obtain x y where rs: "rs = [x, y]"
    by (auto simp: length_Suc_conv)
  with m have "(x = a \<and> y = b) \<or> (x = b \<and> y = a)"
    by (auto simp: add_eq_conv_ex)
  with s l rs show ?thesis by auto
qed

theorem read_items_selects_witness:
  "read_items Healthy rowid_engine office_db
     (Some [(''category'', PStr ''electr''), (''location'', PStr ''101''), (''name'', PStr [])])
     = \<lparr>store = office_db, printed = [],
        result = Returns (RRows [laptop\<lparr>item_id := 4, name := ''Cable''\<rparr>, laptop])\<rparr>"
proof -
  let ?fs = "[(''category'', PStr ''electr''), (''location'', PStr ''101''), (''name'', PStr [])]"
  have e: "filter_entries (Some ?fs) = ?fs"
    by (simp add: filter_entries_def)
  have c: "\<forall>(k, v) \<in> set ?fs. truthy v \<longrightarrow>
      schema_column k \<noteq> None \<and> utf8_length (''%'' @ format v @ ''%'') \<le> max_like_pattern"
    by (simp add: schema_column_def utf8_length_def max_like_pattern_def)
  have w: "\<forall>(k, v) \<in> set ?fs. truthy v \<longrightarrow> plain_value (format v)"
    by (simp add: plain_value_def)
  from read_items_selects [of Healthy "Some ?fs" rowid_engine office_db] c w
  obtain rs where r: "read_items Healthy rowid_engine office_db (Some ?fs)
      = \<lparr>store = office_db, printed = [], result = Returns (RRows rs)\<rparr>"
    and m: "mset rs = mset (filter (selected_substring ?fs) (rows office_db))"
    and s: "sorted (map name rs)"
    unfolding e by auto
  have "name (laptop\<lparr>item_id := 4, name := ''Cable''\<rparr>) < name laptop"
    by (simp add: laptop_def)
  with m s have "rs = [laptop\<lparr>item_id := 4, name := ''Cable''\<rparr>, laptop]"
    unfolding office_selected by (rule two_sorted)
  with r show ?thesis by simp
qed

text \<open>
  C3, as stated, fails: the value \<^verbatim>\<open>_\<close> is a wildcard of \<^verbatim>\<open>LIKE\<close>, so the filter on the name
  returns the row whose name is Laptop, which contains no underscore.
\<close>

theorem read_items_wildcard:
  "read_items Healthy rowid_engine laptop_db (Some [(''name'', PStr ''_'')])
     = \<lparr>store = laptop_db, printed = [], result = Returns (RRows [laptop])\<rparr> \<and>
   name laptop = ''Laptop'' \<and> CHR ''_'' \<notin> set (name laptop) \<and>
   \<not> contains_ci ''_'' (name laptop)"
  by (simp add: read_items_def engine_defs query_conditions_def where_conditions_def
      row_matches_def schema_column_def laptop_db_def laptop_def lower_ascii_def char_of_def
      plain_statement_def utf8_length_def max_like_pattern_def sqlite_like_def c_string_def
      rowid_engine_def)

subsection \<open>What the stored rows keep, and what they lose\<close>

lemma row_ok_set_column:
  "row_ok r \<Longrightarrow> k \<in> set valid_fields \<Longrightarrow> v \<noteq> PNone \<Longrightarrow> check_field k v = None \<Longrightarrow>
     row_ok (set_column (k, v) r)"
  by (cases v)
    (auto simp: row_ok_def set_column_def check_field_def valid_fields_def split: if_splits)

lemma row_ok_fold_set_column:
  "row_ok r \<Longrightarrow>
   \<forall>(k, v) \<in> set flds. k \<in> set valid_fields \<and> v \<noteq> PNone \<and> check_field k v = None \<Longrightarrow>
     row_ok (fold set_column flds r)"
proof (induction flds arbitrary: r)
  case Nil
  then show ?case by simp
next
  case (Cons a flds)
  obtain k v where a: "a = (k, v)" by (cases a)
  with Cons.prems have "row_ok (set_column (k, v) r)"
    by (intro row_ok_set_column) auto
  with Cons a show ?case by simp
qed

lemma db_ok_empty: "db_ok (init_db None)"
  by (simp add: db_ok_def init_db_def empty_db_def)

lemma create_item_store_cases:
  "store (create_item f d nm cat qty pd st loc rp nt) = d \<or>
   (0 \<le> qty \<and> strptime pd \<noteq> None \<and>
    store (create_item f d nm cat qty pd st loc rp nt)
      = \<lparr>rows = rows d @
                 [\<lparr>item_id = next_rowid d, name = nm, category = cat, quantity = qty,
                   purchase_date = pd, status = st, location = loc,
                   responsible_person = rp, notes = nt\<rparr>],
         seq = next_rowid d\<rparr>)"
  by (cases f) (auto simp: create_item_def create_body_def handle_def engine_defs)

lemma delete_item_store_cases:
  "store (delete_item f d i) = d \<or>
   store (delete_item f d i) = d\<lparr>rows := filter (\<lambda>r. item_id r \<noteq> i) (rows d)\<rparr>"
  by (cases f) (auto simp: delete_item_def delete_body_def engine_defs Let_def)

lemma db_ok_create: "db_ok d \<Longrightarrow> db_ok (store (create_item f d nm cat qty pd st loc rp nt))"
proof -
  assume ok: "db_ok d"
  from create_item_store_cases [of f d nm cat qty pd st loc rp nt] show ?thesis
  proof
    assume "store (create_item f d nm cat qty pd st loc rp nt) = d"
    with ok show ?thesis by simp
  next
    assume c: "0 \<le> qty \<and> strptime pd \<noteq> None \<and>
      store (create_item f d nm cat qty pd st loc rp nt)
        = \<lparr>rows = rows d @
                 [\<lparr>item_id = next_rowid d, name = nm, category = cat, quantity = qty,
                   purchase_date = pd, status = st, location = loc,
                   responsible_person = rp, notes = nt\<rparr>],
           seq = next_rowid d\<rparr>"
    have "\<forall>r \<in> set (rows d). item_id r < next_rowid d"
      by (simp add: next_rowid_fresh)
    with ok c show ?thesis
      by (auto simp: db_ok_def row_ok_def sorted_wrt_append list_all_iff intro: less_imp_le)
  qed
qed

lemma db_ok_update: "db_ok d \<Longrightarrow> db_ok (store (update_item f d i kw))"
proof -
  assume ok: "db_ok d"
  from update_item_store_cases [of f d i kw] show ?thesis
  proof
    assume "store (update_item f d i kw) = d"
    with ok show ?thesis by simp
  next
    assume "\<exists>flds. update_loop kw [] = Inr flds \<and>
      store (update_item f d i kw)
        = d\<lparr>rows := map (\<lambda>r. if item_id r = i then fold set_column flds r else r) (rows d)\<rparr>"
    then obtain flds where loop: "update_loop kw [] = Inr flds"
      and st: "store (update_item f d i kw)
        = d\<lparr>rows := map (\<lambda>r. if item_id r = i then fold set_column flds r else r) (rows d)\<rparr>"
      by auto
    have checked: "\<forall>(k, v) \<in> set flds. k \<in> set valid_fields \<and> v \<noteq> PNone \<and> check_field k v = None"
      using loop by (rule update_loop_checked) simp
    have ids: "item_id \<circ> (\<lambda>r. if item_id r = i then fold set_column flds r else r) = item_id"
      by (rule ext) (simp add: item_id_fold_set_column)
    show ?thesis
      using ok unfolding st db_ok_def
      by (simp add: ids) (auto simp: list_all_iff item_id_fold_set_column
          intro: row_ok_fold_set_column [OF _ checked])
  qed
qed

lemma db_ok_delete: "db_ok d \<Longrightarrow> db_ok (store (delete_item f d i))"
  using delete_item_store_cases [of f d i]
  by (auto simp: db_ok_def list_all_iff sorted_ids_filter)

text \<open>
  Every table the methods build keeps a quantity that is not negative and a purchase
  date that \<^verbatim>\<open>strptime\<close> accepts in every row, and ids in strictly increasing order, none
  above the counter. The counter never decreases, so no id is assigned twice.
\<close>

lemma reachable_db_ok: "reachable d \<Longrightarrow> db_ok d"
proof (induction rule: reachable.induct)
  case start
  show ?case by (rule db_ok_empty)
next
  case (step d f e c)
  then show ?case
    by (cases c) (simp_all add: db_ok_create db_ok_update db_ok_delete read_items_store)
qed

lemma seq_never_decreases: "seq d \<le> seq (store (perform f e d c))"
proof (cases c)
  case (Create nm cat qty pd st loc rp nt)
  then show ?thesis
    using create_item_store_cases [of f d nm cat qty pd st loc rp nt] next_rowid_above_seq [of d]
    by auto
next
  case (Read filters)
  then show ?thesis by (simp add: read_items_store)
next
  case (Update i kw)
  then show ?thesis
    using update_item_store_cases [of f d i kw] by auto
next
  case (Delete i)
  then show ?thesis
    using delete_item_store_cases [of f d i] by auto
qed

lemma reachable_laptop_db: "reachable laptop_db"
proof -
  have "store (perform Healthy rowid_engine (init_db None)
          (Create ''Laptop'' ''Electronics'' 5 ''2024-01-15'' ''in use'' ''Room 101'' [] []))
      = laptop_db"
    by (simp add: init_db_def create_item_def create_body_def handle_def engine_defs
        strptime_example int64_small next_rowid_empty max_int64_def empty_db_sel laptop_db_def
        laptop_def)
  then show ?thesis
    using reachable.step [OF reachable.start] by metis
qed

text \<open>
  C2. The claim is that the five required fields of a stored row are never empty. The
  checks of \<^verbatim>\<open>update_item\<close> are those of the quantity and of the date; the check of the
  required fields, which \<^verbatim>\<open>create_item\<close> makes, is missing. On the table that holds the
  row made by one create, the update of the name to the empty text succeeds and leaves a
  row without a name.
\<close>

theorem update_item_empties_name:
  "reachable laptop_db \<and>
   update_item Healthy laptop_db 1 [(''name'', PStr [])]
     = \<lparr>store = \<lparr>rows = [laptop\<lparr>name := []\<rparr>], seq = 1\<rparr>, printed = [Updated 1],
        result = Returns RNone\<rparr> \<and>
   reachable \<lparr>rows = [laptop\<lparr>name := []\<rparr>], seq = 1\<rparr>"
proof -
  have u: "update_item Healthy laptop_db 1 [(''name'', PStr [])]
     = \<lparr>store = \<lparr>rows = [laptop\<lparr>name := []\<rparr>], seq = 1\<rparr>, printed = [Updated 1],
        result = Returns RNone\<rparr>"
    by (simp add: update_item_def update_body_def handle_def engine_defs valid_fields_def
        check_field_def int64_small laptop_db_def laptop_def set_column_def)
  have "store (perform Healthy rowid_engine laptop_db (Update 1 [(''name'', PStr [])]))
      = \<lparr>rows = [laptop\<lparr>name := []\<rparr>], seq = 1\<rparr>"
    by (simp add: u)
  then have "reachable \<lparr>rows = [laptop\<lparr>name := []\<rparr>], seq = 1\<rparr>"
    using reachable.step [OF reachable_laptop_db] by metis
  with u reachable_laptop_db show ?thesis by simp
qed

end
